theory Spec2Isabelle
  imports Main "HOL-Library.Word"
begin

section \<open>JavaScript values used by the program\<close>

text \<open>
  A JavaScript string is a sequence of 16-bit code units. \<open>String.prototype.trim\<close>
  removes the leading and trailing code units that are WhiteSpace or LineTerminator
  (ECMAScript, 22.1.3.32), and the empty string is the only falsy string.
\<close>

type_synonym code_unit = "16 word"
type_synonym jsstring = "code_unit list"

definition white_space :: "code_unit list" where
  "white_space =
     [0x0009, 0x000A, 0x000B, 0x000C, 0x000D, 0x0020, 0x00A0, 0x1680,
      0x2000, 0x2001, 0x2002, 0x2003, 0x2004, 0x2005, 0x2006, 0x2007,
      0x2008, 0x2009, 0x200A, 0x2028, 0x2029, 0x202F, 0x205F, 0x3000, 0xFEFF]"

definition is_white_space :: "code_unit \<Rightarrow> bool" where
  "is_white_space c \<longleftrightarrow> c \<in> set white_space"

definition trim :: "jsstring \<Rightarrow> jsstring" where
  "trim s = rev (dropWhile is_white_space (rev (dropWhile is_white_space s)))"

text \<open>Truthiness of a string: \<open>!s\<close> is true exactly for the empty string.\<close>

definition falsy :: "jsstring \<Rightarrow> bool" where
  "falsy s \<longleftrightarrow> s = []"

text \<open>The code units of an ASCII literal, for writing examples.\<close>

definition js :: "string \<Rightarrow> jsstring" where
  "js cs = map (\<lambda>c. of_nat (of_char c)) cs"

section \<open>Notification permission and push token (firebase.ts)\<close>

text \<open>
  The two functions are \<open>async\<close> with a \<open>try\<close>/\<open>catch\<close> around their body. An awaited
  call of the platform either resolves to a value or rejects with an error, so its
  outcome is a value of \<open>error + 'a\<close>; what the function itself does is a pair of its
  own outcome (again \<open>error + 'a\<close>: \<open>Inl\<close> would be an exception reaching the caller)
  and the lines written to the console. \<open>null\<close> is \<open>None\<close>.
\<close>

datatype error = Error string

datatype permission = Granted | Denied | Default

datatype console_line = ConsoleError string error

type_synonym 'a js_result = "(error + 'a) \<times> console_line list"

definition try_catch ::
  "'a js_result \<Rightarrow> (error \<Rightarrow> console_line list \<Rightarrow> 'a js_result) \<Rightarrow> 'a js_result" where
  "try_catch body handler =
     (case body of
        (Inr v, out) \<Rightarrow> (Inr v, out)
      | (Inl e, out) \<Rightarrow> handler e out)"

text \<open>
  \<open>getFCMToken\<close>: the argument is the outcome of \<open>await getToken(messaging, {vapidKey})\<close>.
\<close>

definition getFCMToken :: "error + jsstring \<Rightarrow> console_line list \<Rightarrow> jsstring option js_result" where
  "getFCMToken getToken out =
     try_catch
       (case getToken of
          Inl e \<Rightarrow> (Inl e, out)
        | Inr token \<Rightarrow> (Inr (Some token), out))
       (\<lambda>e out'. (Inr None, out' @ [ConsoleError ''FCM token error:'' e]))"

text \<open>
  \<open>requestNotificationPermission\<close>: the first argument is the outcome of
  \<open>await Notification.requestPermission()\<close>; \<open>getToken\<close> is only called when the
  permission is \<open>'granted'\<close>.
\<close>

definition requestNotificationPermission ::
  "error + permission \<Rightarrow> error + jsstring \<Rightarrow> console_line list \<Rightarrow> jsstring option js_result" where
  "requestNotificationPermission requestPermission getToken out =
     try_catch
       (case requestPermission of
          Inl e \<Rightarrow> (Inl e, out)
        | Inr permission \<Rightarrow>
            if permission = Granted then getFCMToken getToken out
            else (Inr None, out))
       (\<lambda>e out'. (Inr None, out' @ [ConsoleError ''Notification permission error:'' e]))"

section \<open>Messages and their grouping (ChatWindow, the message list)\<close>

text \<open>
  The fields of a message that the component reads. \<open>createdAt\<close> is the instant of the
  message as JavaScript keeps it: milliseconds since the epoch.
\<close>

record message =
  message_id :: jsstring
  senderId :: jsstring
  recipientId :: jsstring
  createdAt :: int

text \<open>
  \<open>differenceInSeconds\<close> of date-fns: the difference of the two instants in
  milliseconds, divided by 1000 and truncated toward zero (the full seconds between them).
\<close>

definition differenceInSeconds :: "int \<Rightarrow> int \<Rightarrow> int" where
  "differenceInSeconds laterDate earlierDate =
     (let diff = laterDate - earlierDate
      in if 0 \<le> diff then diff div 1000 else - ((- diff) div 1000))"

text \<open>
  \<open>messages[i]\<close> is \<open>undefined\<close> outside the array, and reading a property of
  \<open>undefined\<close> throws a TypeError.
\<close>

definition at_index :: "'a list \<Rightarrow> int \<Rightarrow> 'a option" where
  "at_index xs i = (if 0 \<le> i \<and> i < int (length xs) then Some (xs ! nat i) else None)"

definition property :: "'a option \<Rightarrow> ('a \<Rightarrow> 'b) \<Rightarrow> error + 'b" where
  "property obj field =
     (case obj of None \<Rightarrow> Inl (Error ''TypeError'') | Some x \<Rightarrow> Inr (field x))"

definition bind_result :: "error + 'a \<Rightarrow> ('a \<Rightarrow> error + 'b) \<Rightarrow> error + 'b" where
  "bind_result r f = (case r of Inl e \<Rightarrow> Inl e | Inr x \<Rightarrow> f x)"

text \<open>The props handed to a \<open>MessageBubble\<close> (the source spells \<open>continious\<close>).\<close>

record bubble =
  bubble_key :: jsstring
  bubble_message :: message
  isCurrentUser :: bool
  showTimeSeparator :: bool
  continiousTop :: bool
  continiousBottom :: bool

definition showTimeSeparator_prop :: "message list \<Rightarrow> message \<Rightarrow> int \<Rightarrow> error + bool" where
  "showTimeSeparator_prop messages message index =
     (if index > 0 then
        bind_result (property (at_index messages (index - 1)) createdAt) (\<lambda>prev.
          Inr (differenceInSeconds (createdAt message) prev > 600))
      else Inr False)"

definition continiousTop_prop :: "message list \<Rightarrow> message \<Rightarrow> int \<Rightarrow> error + bool" where
  "continiousTop_prop messages message index =
     (if index > 0 then
        bind_result (property (at_index messages (index - 1)) recipientId) (\<lambda>r.
          if r = recipientId message then
            bind_result (property (at_index messages (index - 1)) createdAt) (\<lambda>prev.
              Inr (differenceInSeconds (createdAt message) prev < 300))
          else Inr False)
      else Inr False)"

definition continiousBottom_prop :: "message list \<Rightarrow> message \<Rightarrow> int \<Rightarrow> error + bool" where
  "continiousBottom_prop messages message index =
     (if index < int (length messages) - 1 then
        bind_result (property (at_index messages (index + 1)) recipientId) (\<lambda>r.
          if r = recipientId message then
            bind_result (property (at_index messages (index + 1)) createdAt) (\<lambda>next.
              Inr (differenceInSeconds next (createdAt message) < 300))
          else Inr False)
      else Inr False)"

text \<open>
  One callback of \<open>messages.map((message, index) => ...)\<close>; \<open>user\<close> is \<open>user?.id\<close>.
\<close>

definition message_bubble ::
  "jsstring option \<Rightarrow> message list \<Rightarrow> message \<Rightarrow> int \<Rightarrow> error + bubble" where
  "message_bubble user messages message index =
     bind_result (showTimeSeparator_prop messages message index) (\<lambda>sep.
     bind_result (continiousTop_prop messages message index) (\<lambda>top.
     bind_result (continiousBottom_prop messages message index) (\<lambda>bottom.
       Inr \<lparr>bubble_key = message_id message,
            bubble_message = message,
            isCurrentUser = (Some (senderId message) = user),
            showTimeSeparator = sep,
            continiousTop = top,
            continiousBottom = bottom\<rparr>)))"

fun map_from :: "('a \<Rightarrow> int \<Rightarrow> error + 'b) \<Rightarrow> int \<Rightarrow> 'a list \<Rightarrow> error + 'b list" where
  "map_from f index [] = Inr []"
| "map_from f index (x # xs) =
     bind_result (f x index) (\<lambda>y.
     bind_result (map_from f (index + 1) xs) (\<lambda>ys. Inr (y # ys)))"

definition bubbles :: "jsstring option \<Rightarrow> message list \<Rightarrow> error + bubble list" where
  "bubbles user messages = map_from (message_bubble user messages) 0 messages"

text \<open>
  The messages area: the list of bubbles with the typing row, or the placeholder
  when \<open>messages\<close> is undefined or empty.
\<close>

datatype thread = NoMessagesYet | Bubbles "bubble list" bool

definition messages_area :: "jsstring option \<Rightarrow> message list option \<Rightarrow> bool \<Rightarrow> error + thread" where
  "messages_area user messages recipientTyping =
     (case messages of
        None \<Rightarrow> Inr NoMessagesYet
      | Some ms \<Rightarrow>
          if length ms > 0 then
            bind_result (bubbles user ms) (\<lambda>bs. Inr (Bubbles bs recipientTyping))
          else Inr NoMessagesYet)"

text \<open>The gap in seconds from an earlier message to a later one, as the component measures it.\<close>

definition gap :: "message \<Rightarrow> message \<Rightarrow> int" where
  "gap earlier later = differenceInSeconds (createdAt later) (createdAt earlier)"

section \<open>The state of a mounted ChatWindow\<close>

text \<open>
  The browser's timers. \<open>window.setTimeout\<close> returns a fresh positive id and arms the
  callback for \<open>now + delay\<close>; \<open>clearTimeout\<close> disarms the timer with the given id
  and does nothing when there is none. The component arms two kinds of callback:
  \<open>() => setIsTyping(false)\<close> and the one of \<open>useDebounce\<close>.
\<close>

datatype timer_callback = SetIsTypingFalse | SetDebouncedValue bool

record timer =
  timer_id :: nat
  due :: nat
  callback :: timer_callback

text \<open>
  What the component does to its collaborators, each stamped with the time of the call:
  the prop \<open>onIsTypingChange\<close>, \<open>sendMessage.mutate\<close>, \<open>markAsRead.mutate\<close>, and
  \<open>scrollToBottom\<close>. The flag of \<open>ScrollToBottom\<close> tells whether
  \<open>messagesEndRef.current\<close> was set, that is whether \<open>scrollIntoView\<close> ran.
\<close>

datatype call = OnIsTypingChange bool | SendMessage jsstring | MarkAsRead | ScrollToBottom bool

text \<open>
  The \<open>data\<close> of \<open>useConversation\<close>. Dependency arrays compare objects by identity,
  so the object carries its reference.
\<close>

record conversation =
  conversation_ref :: nat
  recipient_name :: jsstring

record chat =
  \<comment> \<open>props\<close>
  conversationId :: jsstring
  recipientTyping :: bool
  has_onIsTypingChange :: bool
  \<comment> \<open>\<open>useAuth\<close>: \<open>user?.id\<close>\<close>
  user :: "jsstring option"
  \<comment> \<open>\<open>useState\<close>\<close>
  newMessage :: jsstring
  isTyping :: bool
  isTypingTimeoutID :: nat
  \<comment> \<open>\<open>useDebounce(isTyping, 1000)\<close>: its value, its armed timer, the value it last saw\<close>
  debouncedTyping :: bool
  debounce_handler :: "nat option"
  debounce_seen :: "bool option"
  \<comment> \<open>\<open>useConversation\<close> and \<open>useMessages\<close>\<close>
  conversation :: "conversation option"
  isConversationLoading :: bool
  messages :: "message list option"
  messages_ref :: nat
  isMessagesLoading :: bool
  \<comment> \<open>\<open>sendMessage\<close>: \<open>isPending\<close>, the \<open>onSuccess\<close> of the call in flight, the last error\<close>
  isPending :: bool
  onSuccess :: "nat option"
  send_error :: "error option"
  \<comment> \<open>\<open>messagesEndRef.current\<close> is set\<close>
  messagesEndRef :: bool
  \<comment> \<open>the dependency arrays of the last run of the three effects\<close>
  typing_deps :: "(bool \<times> nat option) option"
  scroll_deps :: "(nat \<times> bool) option"
  read_deps :: "nat option option"
  \<comment> \<open>the browser: clock in milliseconds, timers\<close>
  now :: nat
  next_timer_id :: nat
  timers :: "timer list"
  \<comment> \<open>the calls made so far\<close>
  trace :: "(nat \<times> call) list"

definition emit :: "call \<Rightarrow> chat \<Rightarrow> chat" where
  "emit out s = s\<lparr>trace := trace s @ [(now s, out)]\<rparr>"

definition setTimeout :: "timer_callback \<Rightarrow> nat \<Rightarrow> chat \<Rightarrow> nat \<times> chat" where
  "setTimeout cb delay s =
     (next_timer_id s,
      s\<lparr>next_timer_id := next_timer_id s + 1,
        timers := timers s @ [\<lparr>timer_id = next_timer_id s, due = now s + delay, callback = cb\<rparr>]\<rparr>)"

definition clearTimeout :: "nat \<Rightarrow> chat \<Rightarrow> chat" where
  "clearTimeout i s = s\<lparr>timers := filter (\<lambda>t. timer_id t \<noteq> i) (timers s)\<rparr>"

definition armed :: "nat \<Rightarrow> chat \<Rightarrow> bool" where
  "armed i s \<longleftrightarrow> i \<in> set (map timer_id (timers s))"

definition conversation_dep :: "chat \<Rightarrow> nat option" where
  "conversation_dep s = map_option conversation_ref (conversation s)"

subsection \<open>What is on screen\<close>

text \<open>
  The component returns the loading card while either query loads, the not-found card
  when there is no conversation, and otherwise the header, the messages area and the
  form. The \<open>div\<close> that \<open>messagesEndRef\<close> points to is inside the list of bubbles.
\<close>

datatype view =
    LoadingConversation
  | ConversationNotFound
  | Window thread jsstring bool bool

definition form_shown :: "chat \<Rightarrow> bool" where
  "form_shown s \<longleftrightarrow>
     \<not> (isConversationLoading s \<or> isMessagesLoading s) \<and> conversation s \<noteq> None"

definition send_disabled :: "chat \<Rightarrow> bool" where
  "send_disabled s \<longleftrightarrow> isPending s \<or> falsy (trim (newMessage s))"

definition render :: "chat \<Rightarrow> error + view" where
  "render s =
     (if isConversationLoading s \<or> isMessagesLoading s then Inr LoadingConversation
      else if conversation s = None then Inr ConversationNotFound
      else
        bind_result (messages_area (user s) (messages s) (recipientTyping s)) (\<lambda>area.
          Inr (Window area (newMessage s) (send_disabled s) (isPending s))))"

definition end_of_list_shown :: "chat \<Rightarrow> bool" where
  "end_of_list_shown s \<longleftrightarrow>
     form_shown s \<and> (case messages s of None \<Rightarrow> False | Some ms \<Rightarrow> length ms > 0)"

subsection \<open>Handlers\<close>

definition scrollToBottom :: "chat \<Rightarrow> chat" where
  "scrollToBottom s = emit (ScrollToBottom (messagesEndRef s)) s"

text \<open>
  \<open>handleInputChange\<close>; the argument is \<open>e.target.value\<close>. The handler reads
  \<open>isTypingTimeoutID\<close> of the render it was created in.
\<close>

definition handleInputChange :: "jsstring \<Rightarrow> chat \<Rightarrow> chat" where
  "handleInputChange val s =
     (let s1 = s\<lparr>newMessage := val\<rparr> in
      if falsy val then s1
      else
        let s2 = s1\<lparr>isTyping := True\<rparr>;
            s3 = clearTimeout (isTypingTimeoutID s) s2;
            (i, s4) = setTimeout SetIsTypingFalse 5000 s3
        in s4\<lparr>isTypingTimeoutID := i\<rparr>)"

text \<open>
  Modelled from the spec: \<open>sendMessage\<close> of the hook \<open>useConversation\<close>, which is not
  among the sources. The spec gives it as \<open>sendMessage(text) -> ack|error\<close>, asynchronous
  and with at most one call in flight, with a pending flag that is set by the call and
  cleared when the call settles, and an error that is reported and not thrown.
  \<open>mutate\<close> starts the call and keeps the \<open>onSuccess\<close> callback it was given; that
  callback closes over \<open>isTypingTimeoutID\<close> of the render that made it.
\<close>

definition mutate :: "jsstring \<Rightarrow> nat \<Rightarrow> chat \<Rightarrow> chat" where
  "mutate text captured s =
     emit (SendMessage text) (s\<lparr>isPending := True, onSuccess := Some captured, send_error := None\<rparr>)"

text \<open>The \<open>onSuccess\<close> callback of \<open>handleSendMessage\<close>.\<close>

definition on_success :: "nat \<Rightarrow> chat \<Rightarrow> chat" where
  "on_success captured s =
     scrollToBottom (clearTimeout captured (s\<lparr>isTyping := False\<rparr>))"

definition settle_success :: "chat \<Rightarrow> chat" where
  "settle_success s =
     (case onSuccess s of
        None \<Rightarrow> s
      | Some captured \<Rightarrow> on_success captured (s\<lparr>isPending := False, onSuccess := None\<rparr>))"

definition settle_error :: "error \<Rightarrow> chat \<Rightarrow> chat" where
  "settle_error e s =
     (case onSuccess s of
        None \<Rightarrow> s
      | Some captured \<Rightarrow> s\<lparr>isPending := False, onSuccess := None, send_error := Some e\<rparr>)"

text \<open>\<open>handleSendMessage\<close>: the draft it sends is the state \<open>newMessage\<close>.\<close>

definition handleSendMessage :: "chat \<Rightarrow> chat" where
  "handleSendMessage s =
     (if falsy (trim (newMessage s)) then s
      else (mutate (newMessage s) (isTypingTimeoutID s) s)\<lparr>newMessage := []\<rparr>)"

subsection \<open>Effects\<close>

text \<open>
  An effect runs after the first render and after every render in which one of its
  dependencies differs from the last run.

  Modelled from the spec: the hook \<open>useDebounce\<close>, which is not among the sources. The
  spec says that only a value that has persisted for one second without change is
  forwarded: whenever the value differs from the one last seen, the armed timer is
  dropped and a new one is armed for one second later, which stores the value.
\<close>

definition debounce_effect :: "chat \<Rightarrow> chat" where
  "debounce_effect s =
     (if debounce_seen s = Some (isTyping s) then s
      else
        let s1 = (case debounce_handler s of None \<Rightarrow> s | Some h \<Rightarrow> clearTimeout h s);
            (h, s2) = setTimeout (SetDebouncedValue (isTyping s)) 1000 s1
        in s2\<lparr>debounce_handler := Some h, debounce_seen := Some (isTyping s)\<rparr>)"

text \<open>The effect "Send typing indicator", on \<open>[debouncedTyping, conversation]\<close>.\<close>

definition typing_effect :: "chat \<Rightarrow> chat" where
  "typing_effect s =
     (let deps = (debouncedTyping s, conversation_dep s) in
      if typing_deps s = Some deps then s
      else
        let s1 = s\<lparr>typing_deps := Some deps\<rparr> in
        if conversation s = None \<or> \<not> debouncedTyping s \<or> falsy (trim (newMessage s)) then s1
        else if has_onIsTypingChange s then emit (OnIsTypingChange (debouncedTyping s)) s1
        else s1)"

text \<open>The effect on \<open>[messages, recipientTyping]\<close>.\<close>

definition scroll_effect :: "chat \<Rightarrow> chat" where
  "scroll_effect s =
     (let deps = (messages_ref s, recipientTyping s) in
      if scroll_deps s = Some deps then s
      else scrollToBottom (s\<lparr>scroll_deps := Some deps\<rparr>))"

text \<open>The effect on \<open>[conversation]\<close>.\<close>

definition read_effect :: "chat \<Rightarrow> chat" where
  "read_effect s =
     (let deps = conversation_dep s in
      if read_deps s = Some deps then s
      else
        let s1 = s\<lparr>read_deps := Some deps\<rparr> in
        if conversation s \<noteq> None then emit MarkAsRead s1 else s1)"

text \<open>
  A render is committed: the ref is attached or detached, then the effects run in the
  order of their hooks.
\<close>

definition commit :: "chat \<Rightarrow> chat" where
  "commit s =
     read_effect (scroll_effect (typing_effect (debounce_effect
       (s\<lparr>messagesEndRef := end_of_list_shown s\<rparr>))))"

subsection \<open>Events\<close>

text \<open>
  The component starts with an empty draft, not typing, timer id 0, and both queries
  loading.
\<close>

definition initial :: "jsstring \<Rightarrow> bool \<Rightarrow> bool \<Rightarrow> jsstring option \<Rightarrow> chat" where
  "initial cid typing cb uid =
     \<lparr>conversationId = cid, recipientTyping = typing, has_onIsTypingChange = cb,
      user = uid,
      newMessage = [], isTyping = False, isTypingTimeoutID = 0,
      debouncedTyping = False, debounce_handler = None, debounce_seen = None,
      conversation = None, isConversationLoading = True,
      messages = None, messages_ref = 0, isMessagesLoading = True,
      isPending = False, onSuccess = None, send_error = None,
      messagesEndRef = False,
      typing_deps = None, scroll_deps = None, read_deps = None,
      now = 0, next_timer_id = 1, timers = [],
      trace = []\<rparr>"

definition mount :: "jsstring \<Rightarrow> bool \<Rightarrow> bool \<Rightarrow> jsstring option \<Rightarrow> chat" where
  "mount cid typing cb uid = commit (initial cid typing cb uid)"

text \<open>The armed timer that is due first; of two due together, the one armed first.\<close>

fun earliest :: "timer list \<Rightarrow> timer option" where
  "earliest [] = None"
| "earliest (t # ts) =
     (case earliest ts of
        None \<Rightarrow> Some t
      | Some u \<Rightarrow> if due u < due t then Some u else Some t)"

definition run_callback :: "timer_callback \<Rightarrow> chat \<Rightarrow> chat" where
  "run_callback cb s =
     (case cb of
        SetIsTypingFalse \<Rightarrow> s\<lparr>isTyping := False\<rparr>
      | SetDebouncedValue v \<Rightarrow> s\<lparr>debouncedTyping := v\<rparr>)"

definition fire :: "chat \<Rightarrow> chat" where
  "fire s =
     (case earliest (timers s) of
        None \<Rightarrow> s
      | Some t \<Rightarrow>
          run_callback (callback t)
            (s\<lparr>now := max (now s) (due t),
              timers := filter (\<lambda>u. timer_id u \<noteq> timer_id t) (timers s)\<rparr>))"

definition elapse :: "nat \<Rightarrow> chat \<Rightarrow> chat" where
  "elapse d s =
     (case earliest (timers s) of
        None \<Rightarrow> s\<lparr>now := now s + d\<rparr>
      | Some t \<Rightarrow> s\<lparr>now := max (now s) (min (now s + d) (due t))\<rparr>)"

text \<open>
  The events of the single-threaded event loop. The input and the form exist only
  while the window is shown, and the browser does not submit a form whose button is
  disabled. \<open>TimerFires\<close> moves the clock to the next due timer and runs it;
  \<open>Elapse d\<close> lets \<open>d\<close> milliseconds pass, but not past a timer that is due.
\<close>

datatype event =
    Change jsstring
  | Submit
  | SendSucceeded
  | SendFailed error
  | TimerFires
  | Elapse nat
  | SetConversationId jsstring
  | SetRecipientTyping bool
  | ConversationQuery "conversation option" bool
  | MessagesQuery nat "message list option" bool

definition handle :: "event \<Rightarrow> chat \<Rightarrow> chat" where
  "handle e s =
     (case e of
        Change val \<Rightarrow> if form_shown s then handleInputChange val s else s
      | Submit \<Rightarrow> if form_shown s \<and> \<not> send_disabled s then handleSendMessage s else s
      | SendSucceeded \<Rightarrow> settle_success s
      | SendFailed err \<Rightarrow> settle_error err s
      | TimerFires \<Rightarrow> fire s
      | Elapse d \<Rightarrow> elapse d s
      | SetConversationId cid \<Rightarrow> s\<lparr>conversationId := cid\<rparr>
      | SetRecipientTyping b \<Rightarrow> s\<lparr>recipientTyping := b\<rparr>
      | ConversationQuery c loading \<Rightarrow> s\<lparr>conversation := c, isConversationLoading := loading\<rparr>
      | MessagesQuery r ms loading \<Rightarrow>
          s\<lparr>messages := ms, messages_ref := r, isMessagesLoading := loading\<rparr>)"

definition step :: "event \<Rightarrow> chat \<Rightarrow> chat" where
  "step e s = commit (handle e s)"

definition run :: "event list \<Rightarrow> chat \<Rightarrow> chat" where
  "run es s = foldl (\<lambda>s e. step e s) s es"

text \<open>The calls made during one event.\<close>

definition emitted :: "event \<Rightarrow> chat \<Rightarrow> (nat \<times> call) list" where
  "emitted e s = drop (length (trace s)) (trace (step e s))"

text \<open>The drafts that an execution goes through, one after each event.\<close>

fun drafts :: "event list \<Rightarrow> chat \<Rightarrow> jsstring list" where
  "drafts [] s = []"
| "drafts (e # es) s = newMessage (step e s) # drafts es (step e s)"

text \<open>How often a call occurs in a list of calls.\<close>

definition issued :: "call \<Rightarrow> (nat \<times> call) list \<Rightarrow> nat" where
  "issued c tr = length (filter (\<lambda>x. snd x = c) tr)"

text \<open>Events other than the settling of the send in flight.\<close>

definition no_settle :: "event \<Rightarrow> bool" where
  "no_settle e = (case e of SendSucceeded \<Rightarrow> False | SendFailed err \<Rightarrow> False | _ \<Rightarrow> True)"

text \<open>Events other than a new result of \<open>useConversation\<close>.\<close>

definition no_conversation_result :: "event \<Rightarrow> bool" where
  "no_conversation_result e = (case e of ConversationQuery c loading \<Rightarrow> False | _ \<Rightarrow> True)"

text \<open>Events other than a keystroke.\<close>

definition no_keystroke :: "event \<Rightarrow> bool" where
  "no_keystroke e = (case e of Change val \<Rightarrow> False | _ \<Rightarrow> True)"

text \<open>
  Events during which the user goes on typing: keystrokes that leave a draft that is
  not blank, the passing of time, and what arrives from the other side.
\<close>

definition typing_goes_on :: "event \<Rightarrow> bool" where
  "typing_goes_on e =
     (case e of
        Change val \<Rightarrow> \<not> falsy (trim val)
      | TimerFires \<Rightarrow> True
      | Elapse d \<Rightarrow> True
      | MessagesQuery r ms loading \<Rightarrow> True
      | SetRecipientTyping b \<Rightarrow> True
      | _ \<Rightarrow> False)"

subsection \<open>Example data\<close>

definition example_conversation :: conversation where
  "example_conversation = \<lparr>conversation_ref = 1, recipient_name = js ''Bo''\<rparr>"

text \<open>
  Conversation \<open>A\<close> is mounted, both queries have answered (no message yet), and the
  timer that \<open>useDebounce\<close> armed on mount has run.
\<close>

definition example_ready :: chat where
  "example_ready =
     step TimerFires
       (step (MessagesQuery 1 (Some []) False)
         (step (ConversationQuery (Some example_conversation) False)
           (mount (js ''A'') False True None)))"

text \<open>Then the user types \<open>Hello\<close>.\<close>

definition example_typing :: chat where
  "example_typing = step (Change (js ''Hello'')) example_ready"

text \<open>
  Three messages: the second two minutes after the first to the same recipient, the
  third 700 seconds after the second to another recipient.
\<close>

definition example_messages :: "message list" where
  "example_messages =
     [\<lparr>message_id = js ''m1'', senderId = js ''al'', recipientId = js ''bo'', createdAt = 0\<rparr>,
      \<lparr>message_id = js ''m2'', senderId = js ''al'', recipientId = js ''bo'', createdAt = 120500\<rparr>,
      \<lparr>message_id = js ''m3'', senderId = js ''bo'', recipientId = js ''al'', createdAt = 820500\<rparr>]"

subsection \<open>States between events\<close>

text \<open>
  After a commit every effect has seen its current dependencies and the ref is where
  the last render put it.
\<close>

definition settled :: "chat \<Rightarrow> bool" where
  "settled s \<longleftrightarrow>
     debounce_seen s = Some (isTyping s)
     \<and> typing_deps s = Some (debouncedTyping s, conversation_dep s)
     \<and> scroll_deps s = Some (messages_ref s, recipientTyping s)
     \<and> read_deps s = Some (conversation_dep s)
     \<and> messagesEndRef s = end_of_list_shown s"

text \<open>The timer ids the component holds were handed out by \<open>setTimeout\<close> before.\<close>

definition ids_handed_out :: "chat \<Rightarrow> bool" where
  "ids_handed_out s \<longleftrightarrow>
     isTypingTimeoutID s < next_timer_id s
     \<and> (case debounce_handler s of None \<Rightarrow> True | Some h \<Rightarrow> h < next_timer_id s)"

text \<open>A send is in flight whose \<open>onSuccess\<close> holds the timer id \<open>c\<close>.\<close>

definition pending_with :: "nat \<Rightarrow> chat \<Rightarrow> bool" where
  "pending_with c s \<longleftrightarrow> isPending s \<and> onSuccess s = Some c"

text \<open>A send is in flight whose \<open>onSuccess\<close> holds the current timer id, and the draft is empty.\<close>

definition in_flight :: "chat \<Rightarrow> bool" where
  "in_flight s \<longleftrightarrow>
     isPending s \<and> onSuccess s = Some (isTypingTimeoutID s) \<and> newMessage s = []"

text \<open>
  The armed timers: their ids are distinct and were handed out before, none is overdue,
  an expiry timer is the one whose id the component holds, and a debounce timer is the
  one \<open>useDebounce\<close> holds and carries the value it last saw.
\<close>

definition timers_ok :: "chat \<Rightarrow> bool" where
  "timers_ok s \<longleftrightarrow>
     distinct (map timer_id (timers s))
     \<and> (\<forall>x \<in> set (timers s).
          timer_id x < next_timer_id s \<and> now s \<le> due x
          \<and> (callback x = SetIsTypingFalse \<longrightarrow>
                 debounce_handler s \<noteq> Some (timer_id x) \<and> timer_id x = isTypingTimeoutID s)
          \<and> (\<forall>v. callback x = SetDebouncedValue v \<longrightarrow>
                 debounce_handler s = Some (timer_id x) \<and> debounce_seen s = Some v
                 \<and> onSuccess s \<noteq> Some (timer_id x) \<and> isTypingTimeoutID s \<noteq> timer_id x))
     \<and> isTypingTimeoutID s < next_timer_id s
     \<and> (\<forall>h. debounce_handler s = Some h \<longrightarrow> h < next_timer_id s)
     \<and> (\<forall>c. onSuccess s = Some c \<longrightarrow> c < next_timer_id s)"

text \<open>
  The typing flag will be cleared by time \<open>D\<close> and its debounced value one second
  later: the timers that do so are armed.
\<close>

definition expires_by :: "nat \<Rightarrow> chat \<Rightarrow> bool" where
  "expires_by D s \<longleftrightarrow>
     (isTyping s \<longrightarrow> (\<exists>x \<in> set (timers s). callback x = SetIsTypingFalse \<and> due x \<le> D))
     \<and> (debouncedTyping s \<longrightarrow>
          isTyping s
          \<or> (\<exists>x \<in> set (timers s). callback x = SetDebouncedValue False \<and> due x \<le> D + 1000))"

text \<open>
  The call \<open>onIsTypingChange(true)\<close> has been made at time \<open>B\<close>, or the debounce
  timer that will make it at time \<open>B\<close> is armed and no expiry timer comes before it.
\<close>

definition broadcast_due :: "nat \<Rightarrow> chat \<Rightarrow> bool" where
  "broadcast_due B s \<longleftrightarrow>
     conversation s \<noteq> None \<and> has_onIsTypingChange s \<and> \<not> falsy (trim (newMessage s))
     \<and> ((B, OnIsTypingChange True) \<in> set (trace s)
        \<or> (isTyping s \<and> \<not> debouncedTyping s \<and> B \<le> now s + 1000
            \<and> (\<exists>x \<in> set (timers s). callback x = SetDebouncedValue True \<and> due x = B)
            \<and> (\<forall>x \<in> set (timers s). callback x = SetIsTypingFalse \<longrightarrow> B < due x)))"

section \<open>Basic facts about the model\<close>

lemmas string_defs = falsy_def trim_def is_white_space_def white_space_def js_def

lemmas chat_defs = step_def handle_def commit_def mount_def initial_def
  debounce_effect_def typing_effect_def scroll_effect_def read_effect_def
  scrollToBottom_def emit_def setTimeout_def clearTimeout_def fire_def elapse_def run_callback_def
  handleInputChange_def handleSendMessage_def mutate_def settle_success_def settle_error_def
  on_success_def form_shown_def send_disabled_def end_of_list_shown_def conversation_dep_def
  armed_def Let_def

lemma run_simps [simp]:
  "run [] s = s"
  "run (e # es) s = run es (step e s)"
  by (simp_all add: run_def)

lemma run_append: "run (es @ es') s = run es' (run es s)"
  by (simp add: run_def)

subsection \<open>What each function leaves alone\<close>

lemma emit_frame [simp]:
  "conversationId (emit c s) = conversationId s"
  "recipientTyping (emit c s) = recipientTyping s"
  "has_onIsTypingChange (emit c s) = has_onIsTypingChange s"
  "user (emit c s) = user s"
  "newMessage (emit c s) = newMessage s"
  "isTyping (emit c s) = isTyping s"
  "isTypingTimeoutID (emit c s) = isTypingTimeoutID s"
  "debouncedTyping (emit c s) = debouncedTyping s"
  "debounce_handler (emit c s) = debounce_handler s"
  "debounce_seen (emit c s) = debounce_seen s"
  "conversation (emit c s) = conversation s"
  "isConversationLoading (emit c s) = isConversationLoading s"
  "messages (emit c s) = messages s"
  "messages_ref (emit c s) = messages_ref s"
  "isMessagesLoading (emit c s) = isMessagesLoading s"
  "isPending (emit c s) = isPending s"
  "onSuccess (emit c s) = onSuccess s"
  "send_error (emit c s) = send_error s"
  "messagesEndRef (emit c s) = messagesEndRef s"
  "typing_deps (emit c s) = typing_deps s"
  "scroll_deps (emit c s) = scroll_deps s"
  "read_deps (emit c s) = read_deps s"
  "now (emit c s) = now s"
  "next_timer_id (emit c s) = next_timer_id s"
  "timers (emit c s) = timers s"
  by (simp_all add: emit_def)

lemma setTimeout_frame [simp]:
  "conversationId (snd (setTimeout cb d s)) = conversationId s"
  "recipientTyping (snd (setTimeout cb d s)) = recipientTyping s"
  "has_onIsTypingChange (snd (setTimeout cb d s)) = has_onIsTypingChange s"
  "user (snd (setTimeout cb d s)) = user s"
  "newMessage (snd (setTimeout cb d s)) = newMessage s"
  "isTyping (snd (setTimeout cb d s)) = isTyping s"
  "isTypingTimeoutID (snd (setTimeout cb d s)) = isTypingTimeoutID s"
  "debouncedTyping (snd (setTimeout cb d s)) = debouncedTyping s"
  "debounce_handler (snd (setTimeout cb d s)) = debounce_handler s"
  "debounce_seen (snd (setTimeout cb d s)) = debounce_seen s"
  "conversation (snd (setTimeout cb d s)) = conversation s"
  "isConversationLoading (snd (setTimeout cb d s)) = isConversationLoading s"
  "messages (snd (setTimeout cb d s)) = messages s"
  "messages_ref (snd (setTimeout cb d s)) = messages_ref s"
  "isMessagesLoading (snd (setTimeout cb d s)) = isMessagesLoading s"
  "isPending (snd (setTimeout cb d s)) = isPending s"
  "onSuccess (snd (setTimeout cb d s)) = onSuccess s"
  "send_error (snd (setTimeout cb d s)) = send_error s"
  "messagesEndRef (snd (setTimeout cb d s)) = messagesEndRef s"
  "typing_deps (snd (setTimeout cb d s)) = typing_deps s"
  "scroll_deps (snd (setTimeout cb d s)) = scroll_deps s"
  "read_deps (snd (setTimeout cb d s)) = read_deps s"
  "now (snd (setTimeout cb d s)) = now s"
  "trace (snd (setTimeout cb d s)) = trace s"
  by (simp_all add: setTimeout_def)

lemma clearTimeout_frame [simp]:
  "conversationId (clearTimeout i s) = conversationId s"
  "recipientTyping (clearTimeout i s) = recipientTyping s"
  "has_onIsTypingChange (clearTimeout i s) = has_onIsTypingChange s"
  "user (clearTimeout i s) = user s"
  "newMessage (clearTimeout i s) = newMessage s"
  "isTyping (clearTimeout i s) = isTyping s"
  "isTypingTimeoutID (clearTimeout i s) = isTypingTimeoutID s"
  "debouncedTyping (clearTimeout i s) = debouncedTyping s"
  "debounce_handler (clearTimeout i s) = debounce_handler s"
  "debounce_seen (clearTimeout i s) = debounce_seen s"
  "conversation (clearTimeout i s) = conversation s"
  "isConversationLoading (clearTimeout i s) = isConversationLoading s"
  "messages (clearTimeout i s) = messages s"
  "messages_ref (clearTimeout i s) = messages_ref s"
  "isMessagesLoading (clearTimeout i s) = isMessagesLoading s"
  "isPending (clearTimeout i s) = isPending s"
  "onSuccess (clearTimeout i s) = onSuccess s"
  "send_error (clearTimeout i s) = send_error s"
  "messagesEndRef (clearTimeout i s) = messagesEndRef s"
  "typing_deps (clearTimeout i s) = typing_deps s"
  "scroll_deps (clearTimeout i s) = scroll_deps s"
  "read_deps (clearTimeout i s) = read_deps s"
  "now (clearTimeout i s) = now s"
  "next_timer_id (clearTimeout i s) = next_timer_id s"
  "trace (clearTimeout i s) = trace s"
  by (simp_all add: clearTimeout_def)

lemma scrollToBottom_frame [simp]:
  "conversationId (scrollToBottom s) = conversationId s"
  "recipientTyping (scrollToBottom s) = recipientTyping s"
  "has_onIsTypingChange (scrollToBottom s) = has_onIsTypingChange s"
  "user (scrollToBottom s) = user s"
  "newMessage (scrollToBottom s) = newMessage s"
  "isTyping (scrollToBottom s) = isTyping s"
  "isTypingTimeoutID (scrollToBottom s) = isTypingTimeoutID s"
  "debouncedTyping (scrollToBottom s) = debouncedTyping s"
  "debounce_handler (scrollToBottom s) = debounce_handler s"
  "debounce_seen (scrollToBottom s) = debounce_seen s"
  "conversation (scrollToBottom s) = conversation s"
  "isConversationLoading (scrollToBottom s) = isConversationLoading s"
  "messages (scrollToBottom s) = messages s"
  "messages_ref (scrollToBottom s) = messages_ref s"
  "isMessagesLoading (scrollToBottom s) = isMessagesLoading s"
  "isPending (scrollToBottom s) = isPending s"
  "onSuccess (scrollToBottom s) = onSuccess s"
  "send_error (scrollToBottom s) = send_error s"
  "messagesEndRef (scrollToBottom s) = messagesEndRef s"
  "typing_deps (scrollToBottom s) = typing_deps s"
  "scroll_deps (scrollToBottom s) = scroll_deps s"
  "read_deps (scrollToBottom s) = read_deps s"
  "now (scrollToBottom s) = now s"
  "next_timer_id (scrollToBottom s) = next_timer_id s"
  "timers (scrollToBottom s) = timers s"
  by (simp_all add: scrollToBottom_def)

lemma debounce_effect_frame [simp]:
  "conversationId (debounce_effect s) = conversationId s"
  "recipientTyping (debounce_effect s) = recipientTyping s"
  "has_onIsTypingChange (debounce_effect s) = has_onIsTypingChange s"
  "user (debounce_effect s) = user s"
  "newMessage (debounce_effect s) = newMessage s"
  "isTyping (debounce_effect s) = isTyping s"
  "isTypingTimeoutID (debounce_effect s) = isTypingTimeoutID s"
  "debouncedTyping (debounce_effect s) = debouncedTyping s"
  "conversation (debounce_effect s) = conversation s"
  "isConversationLoading (debounce_effect s) = isConversationLoading s"
  "messages (debounce_effect s) = messages s"
  "messages_ref (debounce_effect s) = messages_ref s"
  "isMessagesLoading (debounce_effect s) = isMessagesLoading s"
  "isPending (debounce_effect s) = isPending s"
  "onSuccess (debounce_effect s) = onSuccess s"
  "send_error (debounce_effect s) = send_error s"
  "messagesEndRef (debounce_effect s) = messagesEndRef s"
  "typing_deps (debounce_effect s) = typing_deps s"
  "scroll_deps (debounce_effect s) = scroll_deps s"
  "read_deps (debounce_effect s) = read_deps s"
  "now (debounce_effect s) = now s"
  "trace (debounce_effect s) = trace s"
  by (simp_all add: debounce_effect_def Let_def split_def split: option.splits)

lemma typing_effect_frame [simp]:
  "conversationId (typing_effect s) = conversationId s"
  "recipientTyping (typing_effect s) = recipientTyping s"
  "has_onIsTypingChange (typing_effect s) = has_onIsTypingChange s"
  "user (typing_effect s) = user s"
  "newMessage (typing_effect s) = newMessage s"
  "isTyping (typing_effect s) = isTyping s"
  "isTypingTimeoutID (typing_effect s) = isTypingTimeoutID s"
  "debouncedTyping (typing_effect s) = debouncedTyping s"
  "debounce_handler (typing_effect s) = debounce_handler s"
  "debounce_seen (typing_effect s) = debounce_seen s"
  "conversation (typing_effect s) = conversation s"
  "isConversationLoading (typing_effect s) = isConversationLoading s"
  "messages (typing_effect s) = messages s"
  "messages_ref (typing_effect s) = messages_ref s"
  "isMessagesLoading (typing_effect s) = isMessagesLoading s"
  "isPending (typing_effect s) = isPending s"
  "onSuccess (typing_effect s) = onSuccess s"
  "send_error (typing_effect s) = send_error s"
  "messagesEndRef (typing_effect s) = messagesEndRef s"
  "scroll_deps (typing_effect s) = scroll_deps s"
  "read_deps (typing_effect s) = read_deps s"
  "now (typing_effect s) = now s"
  "next_timer_id (typing_effect s) = next_timer_id s"
  "timers (typing_effect s) = timers s"
  by (simp_all add: typing_effect_def Let_def)

lemma scroll_effect_frame [simp]:
  "conversationId (scroll_effect s) = conversationId s"
  "recipientTyping (scroll_effect s) = recipientTyping s"
  "has_onIsTypingChange (scroll_effect s) = has_onIsTypingChange s"
  "user (scroll_effect s) = user s"
  "newMessage (scroll_effect s) = newMessage s"
  "isTyping (scroll_effect s) = isTyping s"
  "isTypingTimeoutID (scroll_effect s) = isTypingTimeoutID s"
  "debouncedTyping (scroll_effect s) = debouncedTyping s"
  "debounce_handler (scroll_effect s) = debounce_handler s"
  "debounce_seen (scroll_effect s) = debounce_seen s"
  "conversation (scroll_effect s) = conversation s"
  "isConversationLoading (scroll_effect s) = isConversationLoading s"
  "messages (scroll_effect s) = messages s"
  "messages_ref (scroll_effect s) = messages_ref s"
  "isMessagesLoading (scroll_effect s) = isMessagesLoading s"
  "isPending (scroll_effect s) = isPending s"
  "onSuccess (scroll_effect s) = onSuccess s"
  "send_error (scroll_effect s) = send_error s"
  "messagesEndRef (scroll_effect s) = messagesEndRef s"
  "typing_deps (scroll_effect s) = typing_deps s"
  "read_deps (scroll_effect s) = read_deps s"
  "now (scroll_effect s) = now s"
  "next_timer_id (scroll_effect s) = next_timer_id s"
  "timers (scroll_effect s) = timers s"
  by (simp_all add: scroll_effect_def Let_def)

lemma read_effect_frame [simp]:
  "conversationId (read_effect s) = conversationId s"
  "recipientTyping (read_effect s) = recipientTyping s"
  "has_onIsTypingChange (read_effect s) = has_onIsTypingChange s"
  "user (read_effect s) = user s"
  "newMessage (read_effect s) = newMessage s"
  "isTyping (read_effect s) = isTyping s"
  "isTypingTimeoutID (read_effect s) = isTypingTimeoutID s"
  "debouncedTyping (read_effect s) = debouncedTyping s"
  "debounce_handler (read_effect s) = debounce_handler s"
  "debounce_seen (read_effect s) = debounce_seen s"
  "conversation (read_effect s) = conversation s"
  "isConversationLoading (read_effect s) = isConversationLoading s"
  "messages (read_effect s) = messages s"
  "messages_ref (read_effect s) = messages_ref s"
  "isMessagesLoading (read_effect s) = isMessagesLoading s"
  "isPending (read_effect s) = isPending s"
  "onSuccess (read_effect s) = onSuccess s"
  "send_error (read_effect s) = send_error s"
  "messagesEndRef (read_effect s) = messagesEndRef s"
  "typing_deps (read_effect s) = typing_deps s"
  "scroll_deps (read_effect s) = scroll_deps s"
  "now (read_effect s) = now s"
  "next_timer_id (read_effect s) = next_timer_id s"
  "timers (read_effect s) = timers s"
  by (simp_all add: read_effect_def Let_def)

lemma commit_frame [simp]:
  "conversationId (commit s) = conversationId s"
  "recipientTyping (commit s) = recipientTyping s"
  "has_onIsTypingChange (commit s) = has_onIsTypingChange s"
  "user (commit s) = user s"
  "newMessage (commit s) = newMessage s"
  "isTyping (commit s) = isTyping s"
  "isTypingTimeoutID (commit s) = isTypingTimeoutID s"
  "debouncedTyping (commit s) = debouncedTyping s"
  "conversation (commit s) = conversation s"
  "isConversationLoading (commit s) = isConversationLoading s"
  "messages (commit s) = messages s"
  "messages_ref (commit s) = messages_ref s"
  "isMessagesLoading (commit s) = isMessagesLoading s"
  "isPending (commit s) = isPending s"
  "onSuccess (commit s) = onSuccess s"
  "send_error (commit s) = send_error s"
  "now (commit s) = now s"
  by (simp_all add: commit_def)

subsection \<open>What each function changes\<close>

lemma emit_trace [simp]: "trace (emit c s) = trace s @ [(now s, c)]"
  by (simp add: emit_def)

lemma setTimeout_result [simp]:
  "fst (setTimeout cb d s) = next_timer_id s"
  "next_timer_id (snd (setTimeout cb d s)) = next_timer_id s + 1"
  "timers (snd (setTimeout cb d s)) =
     timers s @ [\<lparr>timer_id = next_timer_id s, due = now s + d, callback = cb\<rparr>]"
  by (simp_all add: setTimeout_def)

lemma clearTimeout_timers [simp]:
  "timers (clearTimeout i s) = filter (\<lambda>t. timer_id t \<noteq> i) (timers s)"
  by (simp add: clearTimeout_def)

lemma scrollToBottom_trace [simp]:
  "trace (scrollToBottom s) = trace s @ [(now s, ScrollToBottom (messagesEndRef s))]"
  by (simp add: scrollToBottom_def)

lemma conversation_dep_frame [simp]:
  "conversation_dep (emit c s) = conversation_dep s"
  "conversation_dep (scrollToBottom s) = conversation_dep s"
  "conversation_dep (debounce_effect s) = conversation_dep s"
  "conversation_dep (typing_effect s) = conversation_dep s"
  "conversation_dep (scroll_effect s) = conversation_dep s"
  "conversation_dep (read_effect s) = conversation_dep s"
  "conversation_dep (commit s) = conversation_dep s"
  by (simp_all add: conversation_dep_def)

lemma debounce_effect_seen [simp]: "debounce_seen (debounce_effect s) = Some (isTyping s)"
  by (simp add: debounce_effect_def Let_def split_def split: option.splits)

lemma debounce_effect_settled: "debounce_seen s = Some (isTyping s) \<Longrightarrow> debounce_effect s = s"
  by (simp add: debounce_effect_def)

lemma typing_effect_deps [simp]:
  "typing_deps (typing_effect s) = Some (debouncedTyping s, conversation_dep s)"
  by (simp add: typing_effect_def Let_def)

lemma typing_effect_trace:
  "trace (typing_effect s) =
     trace s @
     (if typing_deps s \<noteq> Some (debouncedTyping s, conversation_dep s) \<and> conversation s \<noteq> None
         \<and> debouncedTyping s \<and> \<not> falsy (trim (newMessage s)) \<and> has_onIsTypingChange s
      then [(now s, OnIsTypingChange True)] else [])"
  by (simp add: typing_effect_def Let_def)

lemma scroll_effect_deps [simp]:
  "scroll_deps (scroll_effect s) = Some (messages_ref s, recipientTyping s)"
  by (simp add: scroll_effect_def Let_def)

lemma scroll_effect_trace:
  "trace (scroll_effect s) =
     trace s @
     (if scroll_deps s \<noteq> Some (messages_ref s, recipientTyping s)
      then [(now s, ScrollToBottom (messagesEndRef s))] else [])"
  by (simp add: scroll_effect_def Let_def)

lemma read_effect_deps [simp]: "read_deps (read_effect s) = Some (conversation_dep s)"
  by (simp add: read_effect_def Let_def)

lemma read_effect_trace:
  "trace (read_effect s) =
     trace s @
     (if read_deps s \<noteq> Some (conversation_dep s) \<and> conversation s \<noteq> None
      then [(now s, MarkAsRead)] else [])"
  by (simp add: read_effect_def Let_def)

lemma commit_deps [simp]:
  "debounce_seen (commit s) = Some (isTyping s)"
  "typing_deps (commit s) = Some (debouncedTyping s, conversation_dep s)"
  "scroll_deps (commit s) = Some (messages_ref s, recipientTyping s)"
  "read_deps (commit s) = Some (conversation_dep s)"
  "messagesEndRef (commit s) = end_of_list_shown s"
  by (simp_all add: commit_def conversation_dep_def)

lemma commit_trace:
  "trace (commit s) =
     trace s @
     (if typing_deps s \<noteq> Some (debouncedTyping s, conversation_dep s) \<and> conversation s \<noteq> None
         \<and> debouncedTyping s \<and> \<not> falsy (trim (newMessage s)) \<and> has_onIsTypingChange s
      then [(now s, OnIsTypingChange True)] else []) @
     (if scroll_deps s \<noteq> Some (messages_ref s, recipientTyping s)
      then [(now s, ScrollToBottom (end_of_list_shown s))] else []) @
     (if read_deps s \<noteq> Some (conversation_dep s) \<and> conversation s \<noteq> None
      then [(now s, MarkAsRead)] else [])"
  by (simp add: commit_def read_effect_trace scroll_effect_trace typing_effect_trace
      conversation_dep_def)

subsection \<open>Handlers and events\<close>

lemma run_callback_frame [simp]:
  "conversationId (run_callback cb s) = conversationId s"
  "recipientTyping (run_callback cb s) = recipientTyping s"
  "has_onIsTypingChange (run_callback cb s) = has_onIsTypingChange s"
  "user (run_callback cb s) = user s"
  "newMessage (run_callback cb s) = newMessage s"
  "isTypingTimeoutID (run_callback cb s) = isTypingTimeoutID s"
  "debounce_handler (run_callback cb s) = debounce_handler s"
  "debounce_seen (run_callback cb s) = debounce_seen s"
  "conversation (run_callback cb s) = conversation s"
  "isConversationLoading (run_callback cb s) = isConversationLoading s"
  "messages (run_callback cb s) = messages s"
  "messages_ref (run_callback cb s) = messages_ref s"
  "isMessagesLoading (run_callback cb s) = isMessagesLoading s"
  "isPending (run_callback cb s) = isPending s"
  "onSuccess (run_callback cb s) = onSuccess s"
  "send_error (run_callback cb s) = send_error s"
  "messagesEndRef (run_callback cb s) = messagesEndRef s"
  "typing_deps (run_callback cb s) = typing_deps s"
  "scroll_deps (run_callback cb s) = scroll_deps s"
  "read_deps (run_callback cb s) = read_deps s"
  "now (run_callback cb s) = now s"
  "next_timer_id (run_callback cb s) = next_timer_id s"
  "timers (run_callback cb s) = timers s"
  "trace (run_callback cb s) = trace s"
  by (simp_all add: run_callback_def split: timer_callback.splits)

lemma fire_frame [simp]:
  "conversationId (fire s) = conversationId s"
  "recipientTyping (fire s) = recipientTyping s"
  "has_onIsTypingChange (fire s) = has_onIsTypingChange s"
  "user (fire s) = user s"
  "newMessage (fire s) = newMessage s"
  "isTypingTimeoutID (fire s) = isTypingTimeoutID s"
  "debounce_handler (fire s) = debounce_handler s"
  "debounce_seen (fire s) = debounce_seen s"
  "conversation (fire s) = conversation s"
  "isConversationLoading (fire s) = isConversationLoading s"
  "messages (fire s) = messages s"
  "messages_ref (fire s) = messages_ref s"
  "isMessagesLoading (fire s) = isMessagesLoading s"
  "isPending (fire s) = isPending s"
  "onSuccess (fire s) = onSuccess s"
  "send_error (fire s) = send_error s"
  "messagesEndRef (fire s) = messagesEndRef s"
  "typing_deps (fire s) = typing_deps s"
  "scroll_deps (fire s) = scroll_deps s"
  "read_deps (fire s) = read_deps s"
  "next_timer_id (fire s) = next_timer_id s"
  "trace (fire s) = trace s"
  by (simp_all add: fire_def split: option.splits)

lemma elapse_frame [simp]:
  "conversationId (elapse d s) = conversationId s"
  "recipientTyping (elapse d s) = recipientTyping s"
  "has_onIsTypingChange (elapse d s) = has_onIsTypingChange s"
  "user (elapse d s) = user s"
  "newMessage (elapse d s) = newMessage s"
  "isTyping (elapse d s) = isTyping s"
  "isTypingTimeoutID (elapse d s) = isTypingTimeoutID s"
  "debouncedTyping (elapse d s) = debouncedTyping s"
  "debounce_handler (elapse d s) = debounce_handler s"
  "debounce_seen (elapse d s) = debounce_seen s"
  "conversation (elapse d s) = conversation s"
  "isConversationLoading (elapse d s) = isConversationLoading s"
  "messages (elapse d s) = messages s"
  "messages_ref (elapse d s) = messages_ref s"
  "isMessagesLoading (elapse d s) = isMessagesLoading s"
  "isPending (elapse d s) = isPending s"
  "onSuccess (elapse d s) = onSuccess s"
  "send_error (elapse d s) = send_error s"
  "messagesEndRef (elapse d s) = messagesEndRef s"
  "typing_deps (elapse d s) = typing_deps s"
  "scroll_deps (elapse d s) = scroll_deps s"
  "read_deps (elapse d s) = read_deps s"
  "next_timer_id (elapse d s) = next_timer_id s"
  "timers (elapse d s) = timers s"
  "trace (elapse d s) = trace s"
  by (simp_all add: elapse_def split: option.splits)

lemma mutate_frame [simp]:
  "conversationId (mutate txt c s) = conversationId s"
  "recipientTyping (mutate txt c s) = recipientTyping s"
  "has_onIsTypingChange (mutate txt c s) = has_onIsTypingChange s"
  "user (mutate txt c s) = user s"
  "newMessage (mutate txt c s) = newMessage s"
  "isTyping (mutate txt c s) = isTyping s"
  "isTypingTimeoutID (mutate txt c s) = isTypingTimeoutID s"
  "debouncedTyping (mutate txt c s) = debouncedTyping s"
  "debounce_handler (mutate txt c s) = debounce_handler s"
  "debounce_seen (mutate txt c s) = debounce_seen s"
  "conversation (mutate txt c s) = conversation s"
  "isConversationLoading (mutate txt c s) = isConversationLoading s"
  "messages (mutate txt c s) = messages s"
  "messages_ref (mutate txt c s) = messages_ref s"
  "isMessagesLoading (mutate txt c s) = isMessagesLoading s"
  "messagesEndRef (mutate txt c s) = messagesEndRef s"
  "typing_deps (mutate txt c s) = typing_deps s"
  "scroll_deps (mutate txt c s) = scroll_deps s"
  "read_deps (mutate txt c s) = read_deps s"
  "now (mutate txt c s) = now s"
  "next_timer_id (mutate txt c s) = next_timer_id s"
  "timers (mutate txt c s) = timers s"
  by (simp_all add: mutate_def)

lemma on_success_frame [simp]:
  "conversationId (on_success c s) = conversationId s"
  "recipientTyping (on_success c s) = recipientTyping s"
  "has_onIsTypingChange (on_success c s) = has_onIsTypingChange s"
  "user (on_success c s) = user s"
  "newMessage (on_success c s) = newMessage s"
  "isTypingTimeoutID (on_success c s) = isTypingTimeoutID s"
  "debouncedTyping (on_success c s) = debouncedTyping s"
  "debounce_handler (on_success c s) = debounce_handler s"
  "debounce_seen (on_success c s) = debounce_seen s"
  "conversation (on_success c s) = conversation s"
  "isConversationLoading (on_success c s) = isConversationLoading s"
  "messages (on_success c s) = messages s"
  "messages_ref (on_success c s) = messages_ref s"
  "isMessagesLoading (on_success c s) = isMessagesLoading s"
  "isPending (on_success c s) = isPending s"
  "onSuccess (on_success c s) = onSuccess s"
  "send_error (on_success c s) = send_error s"
  "messagesEndRef (on_success c s) = messagesEndRef s"
  "typing_deps (on_success c s) = typing_deps s"
  "scroll_deps (on_success c s) = scroll_deps s"
  "read_deps (on_success c s) = read_deps s"
  "now (on_success c s) = now s"
  "next_timer_id (on_success c s) = next_timer_id s"
  by (simp_all add: on_success_def)

lemma settle_success_frame [simp]:
  "conversationId (settle_success s) = conversationId s"
  "recipientTyping (settle_success s) = recipientTyping s"
  "has_onIsTypingChange (settle_success s) = has_onIsTypingChange s"
  "user (settle_success s) = user s"
  "newMessage (settle_success s) = newMessage s"
  "isTypingTimeoutID (settle_success s) = isTypingTimeoutID s"
  "debouncedTyping (settle_success s) = debouncedTyping s"
  "debounce_handler (settle_success s) = debounce_handler s"
  "debounce_seen (settle_success s) = debounce_seen s"
  "conversation (settle_success s) = conversation s"
  "isConversationLoading (settle_success s) = isConversationLoading s"
  "messages (settle_success s) = messages s"
  "messages_ref (settle_success s) = messages_ref s"
  "isMessagesLoading (settle_success s) = isMessagesLoading s"
  "send_error (settle_success s) = send_error s"
  "messagesEndRef (settle_success s) = messagesEndRef s"
  "typing_deps (settle_success s) = typing_deps s"
  "scroll_deps (settle_success s) = scroll_deps s"
  "read_deps (settle_success s) = read_deps s"
  "now (settle_success s) = now s"
  "next_timer_id (settle_success s) = next_timer_id s"
  by (simp_all add: settle_success_def split: option.splits)

lemma settle_error_frame [simp]:
  "conversationId (settle_error err s) = conversationId s"
  "recipientTyping (settle_error err s) = recipientTyping s"
  "has_onIsTypingChange (settle_error err s) = has_onIsTypingChange s"
  "user (settle_error err s) = user s"
  "newMessage (settle_error err s) = newMessage s"
  "isTyping (settle_error err s) = isTyping s"
  "isTypingTimeoutID (settle_error err s) = isTypingTimeoutID s"
  "debouncedTyping (settle_error err s) = debouncedTyping s"
  "debounce_handler (settle_error err s) = debounce_handler s"
  "debounce_seen (settle_error err s) = debounce_seen s"
  "conversation (settle_error err s) = conversation s"
  "isConversationLoading (settle_error err s) = isConversationLoading s"
  "messages (settle_error err s) = messages s"
  "messages_ref (settle_error err s) = messages_ref s"
  "isMessagesLoading (settle_error err s) = isMessagesLoading s"
  "messagesEndRef (settle_error err s) = messagesEndRef s"
  "typing_deps (settle_error err s) = typing_deps s"
  "scroll_deps (settle_error err s) = scroll_deps s"
  "read_deps (settle_error err s) = read_deps s"
  "now (settle_error err s) = now s"
  "next_timer_id (settle_error err s) = next_timer_id s"
  "timers (settle_error err s) = timers s"
  "trace (settle_error err s) = trace s"
  by (simp_all add: settle_error_def split: option.splits)

lemma handleInputChange_frame [simp]:
  "conversationId (handleInputChange val s) = conversationId s"
  "recipientTyping (handleInputChange val s) = recipientTyping s"
  "has_onIsTypingChange (handleInputChange val s) = has_onIsTypingChange s"
  "user (handleInputChange val s) = user s"
  "debouncedTyping (handleInputChange val s) = debouncedTyping s"
  "debounce_handler (handleInputChange val s) = debounce_handler s"
  "debounce_seen (handleInputChange val s) = debounce_seen s"
  "conversation (handleInputChange val s) = conversation s"
  "isConversationLoading (handleInputChange val s) = isConversationLoading s"
  "messages (handleInputChange val s) = messages s"
  "messages_ref (handleInputChange val s) = messages_ref s"
  "isMessagesLoading (handleInputChange val s) = isMessagesLoading s"
  "isPending (handleInputChange val s) = isPending s"
  "onSuccess (handleInputChange val s) = onSuccess s"
  "send_error (handleInputChange val s) = send_error s"
  "messagesEndRef (handleInputChange val s) = messagesEndRef s"
  "typing_deps (handleInputChange val s) = typing_deps s"
  "scroll_deps (handleInputChange val s) = scroll_deps s"
  "read_deps (handleInputChange val s) = read_deps s"
  "now (handleInputChange val s) = now s"
  "trace (handleInputChange val s) = trace s"
  by (simp_all add: handleInputChange_def Let_def split_def)

lemma handleSendMessage_frame [simp]:
  "conversationId (handleSendMessage s) = conversationId s"
  "recipientTyping (handleSendMessage s) = recipientTyping s"
  "has_onIsTypingChange (handleSendMessage s) = has_onIsTypingChange s"
  "user (handleSendMessage s) = user s"
  "isTyping (handleSendMessage s) = isTyping s"
  "isTypingTimeoutID (handleSendMessage s) = isTypingTimeoutID s"
  "debouncedTyping (handleSendMessage s) = debouncedTyping s"
  "debounce_handler (handleSendMessage s) = debounce_handler s"
  "debounce_seen (handleSendMessage s) = debounce_seen s"
  "conversation (handleSendMessage s) = conversation s"
  "isConversationLoading (handleSendMessage s) = isConversationLoading s"
  "messages (handleSendMessage s) = messages s"
  "messages_ref (handleSendMessage s) = messages_ref s"
  "isMessagesLoading (handleSendMessage s) = isMessagesLoading s"
  "messagesEndRef (handleSendMessage s) = messagesEndRef s"
  "typing_deps (handleSendMessage s) = typing_deps s"
  "scroll_deps (handleSendMessage s) = scroll_deps s"
  "read_deps (handleSendMessage s) = read_deps s"
  "now (handleSendMessage s) = now s"
  "next_timer_id (handleSendMessage s) = next_timer_id s"
  "timers (handleSendMessage s) = timers s"
  by (simp_all add: handleSendMessage_def)

lemma handle_frame [simp]:
  "has_onIsTypingChange (handle e s) = has_onIsTypingChange s"
  "user (handle e s) = user s"
  "debounce_handler (handle e s) = debounce_handler s"
  "debounce_seen (handle e s) = debounce_seen s"
  "messagesEndRef (handle e s) = messagesEndRef s"
  "typing_deps (handle e s) = typing_deps s"
  "scroll_deps (handle e s) = scroll_deps s"
  "read_deps (handle e s) = read_deps s"
  by (simp_all add: handle_def split: event.splits)

lemma step_frame [simp]:
  "has_onIsTypingChange (step e s) = has_onIsTypingChange s"
  "user (step e s) = user s"
  by (simp_all add: step_def)

lemma handle_trace:
  "trace (handle e s) =
     trace s @
     (case e of
        Submit \<Rightarrow>
          if form_shown s \<and> \<not> send_disabled s then [(now s, SendMessage (newMessage s))] else []
      | SendSucceeded \<Rightarrow>
          (case onSuccess s of None \<Rightarrow> []
           | Some c \<Rightarrow> [(now s, ScrollToBottom (messagesEndRef s))])
      | _ \<Rightarrow> [])"
  by (cases e)
    (simp_all add: handle_def handleSendMessage_def send_disabled_def mutate_def
      settle_success_def on_success_def settle_error_def handleInputChange_def
      Let_def split_def fire_def elapse_def run_callback_def
      split: option.splits timer_callback.splits)

lemma handle_conversation:
  "no_conversation_result e \<Longrightarrow> conversation (handle e s) = conversation s"
  by (cases e) (simp_all add: handle_def no_conversation_result_def)

lemma handle_has_no_typing_call: "(t, OnIsTypingChange b) \<notin> set (drop (length (trace s)) (trace (handle e s)))"
  by (cases e) (simp_all add: handle_trace split: option.splits)

lemma handle_has_no_read_call: "issued MarkAsRead (trace (handle e s)) = issued MarkAsRead (trace s)"
  by (cases e) (simp_all add: handle_trace issued_def split: option.splits)

lemma example_ready_value:
  "example_ready =
     \<lparr>conversationId = js ''A'', recipientTyping = False, has_onIsTypingChange = True,
      user = None,
      newMessage = [], isTyping = False, isTypingTimeoutID = 0,
      debouncedTyping = False, debounce_handler = Some 1, debounce_seen = Some False,
      conversation = Some example_conversation, isConversationLoading = False,
      messages = Some [], messages_ref = 1, isMessagesLoading = False,
      isPending = False, onSuccess = None, send_error = None,
      messagesEndRef = False,
      typing_deps = Some (False, Some 1), scroll_deps = Some (1, False), read_deps = Some (Some 1),
      now = 1000, next_timer_id = 2, timers = [],
      trace = [(0, ScrollToBottom False), (0, MarkAsRead), (0, ScrollToBottom False)]\<rparr>"
  by (simp add: example_ready_def example_conversation_def chat_defs string_defs)

lemma example_typing_value:
  "example_typing =
     \<lparr>conversationId = js ''A'', recipientTyping = False, has_onIsTypingChange = True,
      user = None,
      newMessage = js ''Hello'', isTyping = True, isTypingTimeoutID = 2,
      debouncedTyping = False, debounce_handler = Some 3, debounce_seen = Some True,
      conversation = Some example_conversation, isConversationLoading = False,
      messages = Some [], messages_ref = 1, isMessagesLoading = False,
      isPending = False, onSuccess = None, send_error = None,
      messagesEndRef = False,
      typing_deps = Some (False, Some 1), scroll_deps = Some (1, False), read_deps = Some (Some 1),
      now = 1000, next_timer_id = 4,
      timers = [\<lparr>timer_id = 2, due = 6000, callback = SetIsTypingFalse\<rparr>,
                \<lparr>timer_id = 3, due = 2000, callback = SetDebouncedValue True\<rparr>],
      trace = [(0, ScrollToBottom False), (0, MarkAsRead), (0, ScrollToBottom False)]\<rparr>"
  by (simp add: example_typing_def example_ready_value example_conversation_def chat_defs
      string_defs)

lemma example_ready_reached:
  "example_ready =
     run [ConversationQuery (Some example_conversation) False, MessagesQuery 1 (Some []) False,
          TimerFires] (mount (js ''A'') False True None)"
  by (simp add: example_ready_def)

lemma example_typing_reached:
  "example_typing =
     run [ConversationQuery (Some example_conversation) False, MessagesQuery 1 (Some []) False,
          TimerFires, Change (js ''Hello'')] (mount (js ''A'') False True None)"
  by (simp add: example_typing_def example_ready_def)

section \<open>Between events\<close>

lemma step_trace: "trace (step e s) = trace s @ emitted e s"
  by (simp add: emitted_def step_def commit_trace handle_trace)

lemma settled_commit: "settled (commit s)"
  by (simp add: settled_def end_of_list_shown_def form_shown_def)

lemma typing_effect_settled:
  "typing_deps s = Some (debouncedTyping s, conversation_dep s) \<Longrightarrow> typing_effect s = s"
  by (simp add: typing_effect_def)

lemma scroll_effect_settled:
  "scroll_deps s = Some (messages_ref s, recipientTyping s) \<Longrightarrow> scroll_effect s = s"
  by (simp add: scroll_effect_def)

lemma read_effect_settled: "read_deps s = Some (conversation_dep s) \<Longrightarrow> read_effect s = s"
  by (simp add: read_effect_def)

lemma commit_settled:
  assumes "settled s"
  shows "commit s = s"
proof -
  have "s\<lparr>messagesEndRef := end_of_list_shown s\<rparr> = s"
    using assms by (simp add: settled_def)
  then have "commit s = read_effect (scroll_effect (typing_effect (debounce_effect s)))"
    by (simp add: commit_def)
  then show ?thesis
    using assms
    by (simp add: settled_def debounce_effect_settled typing_effect_settled
        scroll_effect_settled read_effect_settled)
qed

lemma settled_step: "settled (step e s)"
  by (simp add: step_def settled_commit)

lemma settled_mount: "settled (mount cid rt cb uid)"
  by (simp add: mount_def settled_commit)

lemma settled_run: "settled s \<Longrightarrow> settled (run es s)"
  by (induction es arbitrary: s) (simp_all add: settled_step)

lemma settled_reached: "settled (run es (mount cid rt cb uid))"
  by (simp add: settled_run settled_mount)

lemma emitted_parts:
  "emitted e s =
     drop (length (trace s)) (trace (handle e s)) @
     (if typing_deps s \<noteq> Some (debouncedTyping (handle e s), conversation_dep (handle e s))
         \<and> conversation (handle e s) \<noteq> None
         \<and> debouncedTyping (handle e s) \<and> \<not> falsy (trim (newMessage (handle e s)))
         \<and> has_onIsTypingChange s
      then [(now (handle e s), OnIsTypingChange True)] else []) @
     (if scroll_deps s \<noteq> Some (messages_ref (handle e s), recipientTyping (handle e s))
      then [(now (handle e s), ScrollToBottom (end_of_list_shown (handle e s)))] else []) @
     (if read_deps s \<noteq> Some (conversation_dep (handle e s)) \<and> conversation (handle e s) \<noteq> None
      then [(now (handle e s), MarkAsRead)] else [])"
proof -
  obtain hs where hs: "trace (handle e s) = trace s @ hs"
    by (simp add: handle_trace)
  show ?thesis
    by (simp add: emitted_def step_def commit_trace hs)
qed

lemma settled_conversationId: "settled (s\<lparr>conversationId := c\<rparr>) = settled s"
  by (simp add: settled_def conversation_dep_def end_of_list_shown_def form_shown_def)

lemma commit_in_flight: "in_flight (commit s) = in_flight s"
  by (simp add: in_flight_def)

lemma handle_in_flight:
  "in_flight s \<Longrightarrow> no_settle e \<Longrightarrow> no_keystroke e \<Longrightarrow> in_flight (handle e s)"
  by (cases e)
    (simp_all add: in_flight_def handle_def no_settle_def no_keystroke_def send_disabled_def)

lemma step_in_flight:
  "in_flight s \<Longrightarrow> no_settle e \<Longrightarrow> no_keystroke e \<Longrightarrow> in_flight (step e s)"
  by (simp add: step_def commit_in_flight handle_in_flight)

lemma run_in_flight:
  "in_flight s \<Longrightarrow> \<forall>e \<in> set es. no_settle e \<Longrightarrow> \<forall>e \<in> set es. no_keystroke e \<Longrightarrow>
   in_flight (run es s)"
  by (induction es arbitrary: s) (simp_all add: step_in_flight)

lemma submit_in_flight:
  "form_shown s \<Longrightarrow> \<not> send_disabled s \<Longrightarrow> in_flight (step Submit s)"
  by (simp add: step_def commit_in_flight handle_def in_flight_def handleSendMessage_def
      send_disabled_def mutate_def)

lemma in_flight_pending: "in_flight s \<Longrightarrow> pending_with (isTypingTimeoutID s) s"
  by (simp add: in_flight_def pending_with_def)

lemma handle_pending: "pending_with c s \<Longrightarrow> no_settle e \<Longrightarrow> pending_with c (handle e s)"
  by (cases e) (simp_all add: pending_with_def handle_def no_settle_def send_disabled_def)

lemma step_pending: "pending_with c s \<Longrightarrow> no_settle e \<Longrightarrow> pending_with c (step e s)"
  using handle_pending [of c s e] by (simp add: step_def pending_with_def)

lemma run_pending:
  "pending_with c s \<Longrightarrow> \<forall>e \<in> set es. no_settle e \<Longrightarrow> pending_with c (run es s)"
  by (induction es arbitrary: s) (simp_all add: step_pending)

lemma submit_pending:
  "form_shown s \<Longrightarrow> \<not> send_disabled s \<Longrightarrow> pending_with (isTypingTimeoutID s) (step Submit s)"
  by (simp add: step_def handle_def pending_with_def handleSendMessage_def send_disabled_def
      mutate_def)

lemma commit_timers: "timers (commit s) = timers (debounce_effect s)"
  and commit_next_timer_id: "next_timer_id (commit s) = next_timer_id (debounce_effect s)"
  and commit_debounce_handler: "debounce_handler (commit s) = debounce_handler (debounce_effect s)"
  by (simp_all add: commit_def debounce_effect_def Let_def split_def split: option.splits)

lemma debounce_effect_armed:
  "armed i (debounce_effect s) \<Longrightarrow> armed i s \<or> i = next_timer_id s"
  by (auto simp: debounce_effect_def armed_def Let_def split_def split: if_splits option.splits)

lemma commit_armed: "armed i (commit s) \<Longrightarrow> armed i s \<or> i = next_timer_id s"
  using debounce_effect_armed [of i s] by (simp add: armed_def commit_timers)

subsection \<open>The armed timers\<close>

lemma earliest_None: "earliest ts = None \<longleftrightarrow> ts = []"
  by (induction ts) (auto split: option.splits)

lemma earliest_Some:
  "earliest ts = Some x \<Longrightarrow> x \<in> set ts \<and> (\<forall>y \<in> set ts. due x \<le> due y)"
proof (induction ts arbitrary: x)
  case Nil
  then show ?case by simp
next
  case (Cons t ts)
  show ?case
  proof (cases "earliest ts")
    case None
    then have "ts = []" by (simp add: earliest_None)
    then show ?thesis using Cons.prems by simp
  next
    case (Some u)
    from Cons.IH [OF Some] have u: "u \<in> set ts" "\<forall>y \<in> set ts. due u \<le> due y" by simp_all
    show ?thesis
    proof (cases "due u < due t")
      case True
      then have "x = u" using Cons.prems Some by simp
      then show ?thesis using u True by auto
    next
      case False
      then have "x = t" using Cons.prems Some by simp
      then show ?thesis using u False by force
    qed
  qed
qed

lemma timers_ok_cong:
  assumes "timers h = timers s" and "next_timer_id h = next_timer_id s" and "now h = now s"
    and "debounce_handler h = debounce_handler s" and "debounce_seen h = debounce_seen s"
    and "onSuccess h = onSuccess s" and "isTypingTimeoutID h = isTypingTimeoutID s"
  shows "timers_ok h = timers_ok s"
  by (simp add: timers_ok_def assms)

lemma handleInputChange_timers_ok:
  assumes "timers_ok s"
  shows "timers_ok (handleInputChange val s)"
proof (cases "val = []")
  case True
  then have "timers_ok (handleInputChange val s) = timers_ok s"
    by (intro timers_ok_cong) (simp_all add: handleInputChange_def falsy_def)
  then show ?thesis using assms by simp
next
  case False
  have t: "timers (handleInputChange val s) =
      filter (\<lambda>t. timer_id t \<noteq> isTypingTimeoutID s) (timers s) @
      [\<lparr>timer_id = next_timer_id s, due = now s + 5000, callback = SetIsTypingFalse\<rparr>]"
    and n: "next_timer_id (handleInputChange val s) = next_timer_id s + 1"
    and i: "isTypingTimeoutID (handleInputChange val s) = next_timer_id s"
    using False
    by (simp_all add: handleInputChange_def falsy_def setTimeout_def clearTimeout_def)
  show ?thesis
    using assms
    unfolding timers_ok_def t n i
    by (auto simp: distinct_map_filter)
qed


lemma handleSendMessage_timers_ok:
  assumes "timers_ok s"
  shows "timers_ok (handleSendMessage s)"
proof (cases "falsy (trim (newMessage s))")
  case True
  then show ?thesis using assms by (simp add: handleSendMessage_def)
next
  case False
  have o: "onSuccess (handleSendMessage s) = Some (isTypingTimeoutID s)"
    using False by (simp add: handleSendMessage_def mutate_def)
  show ?thesis
    using assms unfolding timers_ok_def o
    by auto
qed

lemma settle_success_timers_ok:
  assumes "timers_ok s"
  shows "timers_ok (settle_success s)"
proof (cases "onSuccess s")
  case None
  then show ?thesis using assms by (simp add: settle_success_def)
next
  case (Some c)
  have t: "timers (settle_success s) = filter (\<lambda>t. timer_id t \<noteq> c) (timers s)"
    and o: "onSuccess (settle_success s) = None"
    using Some by (simp_all add: settle_success_def on_success_def)
  show ?thesis
    using assms unfolding timers_ok_def t o
    by (auto simp: distinct_map_filter)
qed

lemma settle_error_timers_ok:
  assumes "timers_ok s"
  shows "timers_ok (settle_error err s)"
proof (cases "onSuccess s")
  case None
  then show ?thesis using assms by (simp add: settle_error_def)
next
  case (Some c)
  have o: "onSuccess (settle_error err s) = None"
    using Some by (simp add: settle_error_def)
  show ?thesis
    using assms unfolding timers_ok_def o
    by auto
qed

lemma fire_timers_ok:
  assumes "timers_ok s"
  shows "timers_ok (fire s)"
proof (cases "earliest (timers s)")
  case None
  then show ?thesis using assms by (simp add: fire_def)
next
  case (Some t)
  from earliest_Some [OF Some] have least: "\<forall>y \<in> set (timers s). due t \<le> due y" by simp
  have t: "timers (fire s) = filter (\<lambda>u. timer_id u \<noteq> timer_id t) (timers s)"
    and n: "now (fire s) = max (now s) (due t)"
    using Some by (simp_all add: fire_def run_callback_def split: timer_callback.splits)
  show ?thesis
    using assms least unfolding timers_ok_def t n
    by (auto simp: distinct_map_filter)
qed

lemma elapse_timers_ok:
  assumes "timers_ok s"
  shows "timers_ok (elapse d s)"
proof (cases "earliest (timers s)")
  case None
  then have "timers s = []" by (simp add: earliest_None)
  then show ?thesis using assms by (simp add: timers_ok_def)
next
  case (Some t)
  from earliest_Some [OF Some] have least: "\<forall>y \<in> set (timers s). due t \<le> due y" by simp
  have n: "now (elapse d s) = max (now s) (min (now s + d) (due t))"
    using Some by (simp add: elapse_def)
  show ?thesis
    using assms least unfolding timers_ok_def n
    by auto
qed

lemma handle_timers_ok: "timers_ok s \<Longrightarrow> timers_ok (handle e s)"
proof (cases e)
  case (Change val)
  then show "timers_ok s \<Longrightarrow> timers_ok (handle e s)"
    by (simp add: handle_def handleInputChange_timers_ok)
next
  case Submit
  then show "timers_ok s \<Longrightarrow> timers_ok (handle e s)"
    by (simp add: handle_def handleSendMessage_timers_ok)
next
  case SendSucceeded
  then show "timers_ok s \<Longrightarrow> timers_ok (handle e s)"
    by (simp add: handle_def settle_success_timers_ok)
next
  case (SendFailed err)
  then show "timers_ok s \<Longrightarrow> timers_ok (handle e s)"
    by (simp add: handle_def settle_error_timers_ok)
next
  case TimerFires
  then show "timers_ok s \<Longrightarrow> timers_ok (handle e s)"
    by (simp add: handle_def fire_timers_ok)
next
  case (Elapse d)
  then show "timers_ok s \<Longrightarrow> timers_ok (handle e s)"
    by (simp add: handle_def elapse_timers_ok)
next
  case (SetConversationId c)
  then have "timers_ok (handle e s) = timers_ok s"
    by (intro timers_ok_cong) (simp_all add: handle_def)
  then show "timers_ok s \<Longrightarrow> timers_ok (handle e s)" by simp
next
  case (SetRecipientTyping b)
  then have "timers_ok (handle e s) = timers_ok s"
    by (intro timers_ok_cong) (simp_all add: handle_def)
  then show "timers_ok s \<Longrightarrow> timers_ok (handle e s)" by simp
next
  case (ConversationQuery c l)
  then have "timers_ok (handle e s) = timers_ok s"
    by (intro timers_ok_cong) (simp_all add: handle_def)
  then show "timers_ok s \<Longrightarrow> timers_ok (handle e s)" by simp
next
  case (MessagesQuery r ms l)
  then have "timers_ok (handle e s) = timers_ok s"
    by (intro timers_ok_cong) (simp_all add: handle_def)
  then show "timers_ok s \<Longrightarrow> timers_ok (handle e s)" by simp
qed

lemma debounce_effect_timers_ok:
  assumes "timers_ok s"
  shows "timers_ok (debounce_effect s)"
proof (cases "debounce_seen s = Some (isTyping s)")
  case True
  then show ?thesis using assms by (simp add: debounce_effect_settled)
next
  case False
  show ?thesis
  proof (cases "debounce_handler s")
    case None
    have t: "timers (debounce_effect s) = timers s @
          [\<lparr>timer_id = next_timer_id s, due = now s + 1000,
             callback = SetDebouncedValue (isTyping s)\<rparr>]"
      and n: "next_timer_id (debounce_effect s) = next_timer_id s + 1"
      and h: "debounce_handler (debounce_effect s) = Some (next_timer_id s)"
      and d: "debounce_seen (debounce_effect s) = Some (isTyping s)"
      using False None by (simp_all add: debounce_effect_def setTimeout_def)
    show ?thesis
      using assms None unfolding timers_ok_def t n h d
      by auto
  next
    case (Some k)
    have t: "timers (debounce_effect s) = filter (\<lambda>t. timer_id t \<noteq> k) (timers s) @
          [\<lparr>timer_id = next_timer_id s, due = now s + 1000,
             callback = SetDebouncedValue (isTyping s)\<rparr>]"
      and n: "next_timer_id (debounce_effect s) = next_timer_id s + 1"
      and h: "debounce_handler (debounce_effect s) = Some (next_timer_id s)"
      and d: "debounce_seen (debounce_effect s) = Some (isTyping s)"
      using False Some by (simp_all add: debounce_effect_def setTimeout_def clearTimeout_def)
    show ?thesis
      using assms Some unfolding timers_ok_def t n h d
      by (auto simp: distinct_map_filter)
  qed
qed

lemma commit_timers_ok:
  assumes "timers_ok s"
  shows "timers_ok (commit s)"
proof -
  have "timers_ok (commit s) = timers_ok (debounce_effect s)"
    by (rule timers_ok_cong)
      (simp_all add: commit_timers commit_next_timer_id commit_debounce_handler)
  then show ?thesis using assms by (simp add: debounce_effect_timers_ok)
qed

lemma step_timers_ok: "timers_ok s \<Longrightarrow> timers_ok (step e s)"
  by (simp add: step_def commit_timers_ok handle_timers_ok)

lemma run_timers_ok: "timers_ok s \<Longrightarrow> timers_ok (run es s)"
  by (induction es arbitrary: s) (simp_all add: step_timers_ok)

lemma reached_timers_ok: "timers_ok (run es (mount cid rt cb uid))"
proof -
  have "timers_ok (initial cid rt cb uid)"
    by (simp add: timers_ok_def initial_def)
  then show ?thesis
    by (simp add: run_timers_ok mount_def commit_timers_ok)
qed

lemma timers_ok_ids: "timers_ok s \<Longrightarrow> ids_handed_out s"
  by (auto simp: timers_ok_def ids_handed_out_def split: option.splits)

lemma reached_ids: "ids_handed_out (run es (mount cid rt cb uid))"
  by (simp add: timers_ok_ids reached_timers_ok)

lemma handleSendMessage_trace:
  "trace (handleSendMessage s) =
     trace s @ (if falsy (trim (newMessage s)) then [] else [(now s, SendMessage (newMessage s))])"
  by (simp add: handleSendMessage_def mutate_def)

lemma settle_success_trace:
  "trace (settle_success s) =
     trace s @ (case onSuccess s of None \<Rightarrow> []
                | Some c \<Rightarrow> [(now s, ScrollToBottom (messagesEndRef s))])"
  by (simp add: settle_success_def on_success_def split: option.splits)

lemma submit_emitted:
  "settled s \<Longrightarrow> form_shown s \<Longrightarrow> \<not> send_disabled s \<Longrightarrow>
   emitted Submit s = [(now s, SendMessage (newMessage s))]"
  by (simp add: emitted_parts handleSendMessage_trace settled_def handle_def conversation_dep_def
      send_disabled_def)

lemma success_emitted:
  "settled s \<Longrightarrow> pending_with c s \<Longrightarrow>
   emitted SendSucceeded s = [(now s, ScrollToBottom (messagesEndRef s))]"
  by (simp add: emitted_parts settle_success_trace settled_def handle_def conversation_dep_def
      pending_with_def)

lemma success_state:
  assumes "pending_with c s" and "timers_ok s"
  shows "\<not> isPending (step SendSucceeded s)" and "\<not> isTyping (step SendSucceeded s)"
    and "newMessage (step SendSucceeded s) = newMessage s"
    and "isTypingTimeoutID (step SendSucceeded s) = isTypingTimeoutID s"
    and "\<not> armed c (step SendSucceeded s)"
proof -
  let ?h = "handle SendSucceeded s"
  have h: "?h = on_success c (s\<lparr>isPending := False, onSuccess := None\<rparr>)"
    using assms(1) by (simp add: handle_def settle_success_def pending_with_def)
  show "\<not> isPending (step SendSucceeded s)" "\<not> isTyping (step SendSucceeded s)"
    "newMessage (step SendSucceeded s) = newMessage s"
    "isTypingTimeoutID (step SendSucceeded s) = isTypingTimeoutID s"
    by (simp_all add: step_def h on_success_def)
  have a: "\<not> armed c ?h"
    by (auto simp: h on_success_def armed_def)
  have "c < next_timer_id s"
    using assms by (simp add: timers_ok_def pending_with_def)
  then have n: "c \<noteq> next_timer_id ?h"
    by (simp add: h)
  show "\<not> armed c (step SendSucceeded s)"
    using a n commit_armed [of c ?h] by (auto simp: step_def)
qed

lemma failure_state:
  assumes "pending_with c s" and "settled s"
  shows "step (SendFailed err) s = s\<lparr>isPending := False, onSuccess := None, send_error := Some err\<rparr>"
proof -
  have h: "handle (SendFailed err) s = s\<lparr>isPending := False, onSuccess := None, send_error := Some err\<rparr>"
    using assms(1) by (simp add: handle_def settle_error_def pending_with_def)
  have "settled (s\<lparr>isPending := False, onSuccess := None, send_error := Some err\<rparr>)"
    using assms(2) by (simp add: settled_def conversation_dep_def end_of_list_shown_def form_shown_def)
  then have "commit (s\<lparr>isPending := False, onSuccess := None, send_error := Some err\<rparr>)
      = s\<lparr>isPending := False, onSuccess := None, send_error := Some err\<rparr>"
    by (rule commit_settled)
  then show ?thesis by (simp only: step_def h)
qed

section \<open>The grouping flags of the message list\<close>








text \<open>
  In milliseconds: the separator needs at least 601 full seconds between the two
  messages, and two messages are continuous below 300 seconds.
\<close>

lemma gap_exceeds_600: "600 < gap a b \<longleftrightarrow> 601000 \<le> createdAt b - createdAt a"
  by (auto simp: gap_def differenceInSeconds_def Let_def)

lemma gap_under_300: "gap a b < 300 \<longleftrightarrow> createdAt b - createdAt a < 300000"
  by (auto simp: gap_def differenceInSeconds_def Let_def)




section \<open>Notification permission and push token\<close>

text \<open>
  C9, as the claim states it, fails where the permission is denied: the function returns
  \<open>null\<close> and writes nothing to the console.
\<close>

theorem permission_denied_is_not_logged:
  "requestNotificationPermission (Inr Denied) (Inr (js ''token'')) [] = (Inr None, [])"
  by (simp add: requestNotificationPermission_def try_catch_def)

text \<open>
  C9, amended. When the permission request or the token fetch throws, the function
  returns \<open>null\<close> and logs the error; when the permission is not granted (denied or
  dismissed) it returns \<open>null\<close> and logs nothing; no input makes either function throw.
\<close>

theorem notification_failures_return_null:
  "requestNotificationPermission (Inl e) getToken out =
     (Inr None, out @ [ConsoleError ''Notification permission error:'' e])
   \<and> requestNotificationPermission (Inr Granted) (Inl e) out =
     (Inr None, out @ [ConsoleError ''FCM token error:'' e])
   \<and> requestNotificationPermission (Inr Denied) getToken out = (Inr None, out)
   \<and> requestNotificationPermission (Inr Default) getToken out = (Inr None, out)
   \<and> getFCMToken (Inl e) out = (Inr None, out @ [ConsoleError ''FCM token error:'' e])
   \<and> (\<forall>requestPermission thrown.
         fst (requestNotificationPermission requestPermission getToken out) \<noteq> Inl thrown
         \<and> fst (getFCMToken getToken out) \<noteq> Inl thrown)"
  by (auto simp: requestNotificationPermission_def getFCMToken_def try_catch_def
      split: sum.splits permission.splits)

theorem notification_failures_return_null_witness:
  "requestNotificationPermission (Inr Granted) (Inl (Error ''no service worker'')) [] =
     (Inr None, [ConsoleError ''FCM token error:'' (Error ''no service worker'')])
   \<and> fst (requestNotificationPermission (Inl (Error ''blocked'')) (Inr (js ''token'')) [])
       = Inr None"
  using notification_failures_return_null [of "Error ''no service worker''" "Inr (js ''token'')" "[]"]
    notification_failures_return_null [of "Error ''blocked''" "Inr (js ''token'')" "[]"]
  by simp

section \<open>The send pipeline and the input handler\<close>

text \<open>
  C5. When the trimmed draft is empty, \<open>handleSendMessage\<close> returns the state it was
  given: no send is issued and the draft, the typing flag, the timers and the pending
  flag are as before. The same holds for the handling of the submit event, and the
  render that follows it issues no send either.
\<close>

theorem send_blank_is_noop:
  "falsy (trim (newMessage s)) \<Longrightarrow>
     handleSendMessage s = s \<and> handle Submit s = s
     \<and> (\<forall>t txt. (t, SendMessage txt) \<notin> set (emitted Submit s))"
proof -
  assume blank: "falsy (trim (newMessage s))"
  then have h: "handleSendMessage s = s" "handle Submit s = s"
    by (simp_all add: handleSendMessage_def handle_def)
  then have "\<forall>t txt. (t, SendMessage txt) \<notin> set (emitted Submit s)"
    by (simp add: emitted_parts)
  with h show ?thesis by simp
qed

theorem send_blank_is_noop_witness:
  "newMessage (step (Change (js ''  '')) example_ready) = js ''  ''
   \<and> falsy (trim (newMessage (step (Change (js ''  '')) example_ready)))
   \<and> handleSendMessage (step (Change (js ''  '')) example_ready)
       = step (Change (js ''  '')) example_ready"
proof -
  have d: "newMessage (step (Change (js ''  '')) example_ready) = js ''  ''"
    by (simp add: example_ready_value chat_defs string_defs)
  have b: "falsy (trim (js ''  ''))"
    by (simp add: string_defs)
  from send_blank_is_noop [of "step (Change (js ''  '')) example_ready"] d b
  have "handleSendMessage (step (Change (js ''  '')) example_ready)
       = step (Change (js ''  '')) example_ready"
    by simp
  with d b show ?thesis by simp
qed

text \<open>
  C10. An input event with the empty string changes the draft and nothing else: the
  typing flag, the timer id and the armed timers are as before, so the timer armed by
  an earlier keystroke stays armed and fires as it would have.
\<close>

theorem empty_input_changes_only_draft:
  "handleInputChange [] s = s\<lparr>newMessage := []\<rparr>
   \<and> isTyping (handleInputChange [] s) = isTyping s
   \<and> isTypingTimeoutID (handleInputChange [] s) = isTypingTimeoutID s
   \<and> timers (handleInputChange [] s) = timers s
   \<and> armed i (handleInputChange [] s) = armed i s
   \<and> fire (handleInputChange [] s) = (fire s)\<lparr>newMessage := []\<rparr>"
  by (simp add: handleInputChange_def falsy_def armed_def fire_def run_callback_def
      split: option.splits timer_callback.splits)

theorem empty_input_changes_only_draft_witness:
  "armed 2 (step (Change (js ''a'')) example_ready)
   \<and> armed 2 (handleInputChange [] (step (Change (js ''a'')) example_ready))
   \<and> isTyping (handleInputChange [] (step (Change (js ''a'')) example_ready))
   \<and> newMessage (handleInputChange [] (step (Change (js ''a'')) example_ready)) = []"
proof -
  have a: "armed 2 (step (Change (js ''a'')) example_ready)"
    by (simp add: example_ready_value chat_defs string_defs)
  have t: "isTyping (step (Change (js ''a'')) example_ready)"
    by (simp add: example_ready_value chat_defs string_defs)
  note frame = empty_input_changes_only_draft [of "step (Change (js ''a'')) example_ready" 2]
  have "armed 2 (handleInputChange [] (step (Change (js ''a'')) example_ready))
          = armed 2 (step (Change (js ''a'')) example_ready)"
    using frame by blast
  moreover have "isTyping (handleInputChange [] (step (Change (js ''a'')) example_ready))
          = isTyping (step (Change (js ''a'')) example_ready)"
    using frame by blast
  moreover have "newMessage (handleInputChange [] (step (Change (js ''a'')) example_ready)) = []"
    by (simp add: handleInputChange_def falsy_def)
  ultimately show ?thesis using a t by simp
qed

section \<open>The typing signal\<close>

lemma mount_trace: "trace (mount cid rt cb uid) = [(0, ScrollToBottom False)]"
  by (simp add: mount_def commit_trace initial_def end_of_list_shown_def form_shown_def)

lemma emitted_typing_call:
  "(t, OnIsTypingChange b) \<in> set (emitted e s) \<Longrightarrow> \<not> falsy (trim (newMessage (step e s)))"
  using handle_has_no_typing_call [of t b s e]
  by (auto simp: emitted_parts step_def split: if_splits)

lemma blank_drafts_no_typing_call:
  "\<forall>d \<in> set (drafts es s). falsy (trim d) \<Longrightarrow>
   (t, OnIsTypingChange b) \<in> set (trace (run es s)) \<Longrightarrow> (t, OnIsTypingChange b) \<in> set (trace s)"
proof (induction es arbitrary: s)
  case Nil
  then show ?case by simp
next
  case (Cons e es)
  then have "(t, OnIsTypingChange b) \<in> set (trace (step e s))"
    by simp
  moreover have "(t, OnIsTypingChange b) \<notin> set (emitted e s)"
    using Cons.prems(1) emitted_typing_call [of t b e s] by auto
  ultimately show ?case by (simp add: step_trace)
qed

text \<open>
  C7. Whenever an event makes the component call \<open>onIsTypingChange\<close>, the draft of the
  render that made the call is not empty after trimming (and the value passed is
  \<open>true\<close>, the conversation is loaded and the debounced flag is set). And in every
  execution of the mounted component in which the draft is empty after trimming all the
  way, \<open>onIsTypingChange\<close> is never called, with either value.
\<close>

theorem typing_call_needs_draft:
  "((t, OnIsTypingChange b) \<in> set (emitted e s) \<longrightarrow>
      b \<and> \<not> falsy (trim (newMessage (step e s))) \<and> conversation (step e s) \<noteq> None
      \<and> debouncedTyping (step e s))
   \<and> ((\<forall>d \<in> set (drafts es (mount cid rt cb uid)). falsy (trim d)) \<longrightarrow>
        (t', OnIsTypingChange b') \<notin> set (trace (run es (mount cid rt cb uid))))"
proof -
  have "(t, OnIsTypingChange b) \<in> set (emitted e s) \<longrightarrow>
      b \<and> \<not> falsy (trim (newMessage (step e s))) \<and> conversation (step e s) \<noteq> None
      \<and> debouncedTyping (step e s)"
    using handle_has_no_typing_call [of t b s e]
    by (auto simp: emitted_parts step_def split: if_splits)
  moreover have "(t', OnIsTypingChange b') \<notin> set (trace (run es (mount cid rt cb uid)))"
    if "\<forall>d \<in> set (drafts es (mount cid rt cb uid)). falsy (trim d)"
    using blank_drafts_no_typing_call [OF that, of t' b'] by (auto simp: mount_trace)
  ultimately show ?thesis by blast
qed

theorem typing_call_needs_draft_witness:
  "(2000, OnIsTypingChange True) \<in> set (emitted TimerFires example_typing)
   \<and> newMessage (step TimerFires example_typing) = js ''Hello''
   \<and> \<not> falsy (trim (newMessage (step TimerFires example_typing)))
   \<and> drafts [Change (js ''  ''), TimerFires] example_ready = [js ''  '', js ''  '']
   \<and> (2000, OnIsTypingChange True)
        \<notin> set (trace (run [Change (js ''  ''), TimerFires] example_ready))"
proof -
  have e: "(2000, OnIsTypingChange True) \<in> set (emitted TimerFires example_typing)"
    by (simp add: emitted_def example_typing_value example_conversation_def chat_defs string_defs)
  have d: "newMessage (step TimerFires example_typing) = js ''Hello''"
    by (simp add: step_def handle_def example_typing_value)
  have b: "drafts [Change (js ''  ''), TimerFires] example_ready = [js ''  '', js ''  '']"
    by (simp add: example_ready_value example_conversation_def chat_defs string_defs)
  have "drafts [ConversationQuery (Some example_conversation) False, MessagesQuery 1 (Some []) False,
          TimerFires, Change (js ''  ''), TimerFires] (mount (js ''A'') False True None)
      = [newMessage (step (ConversationQuery (Some example_conversation) False)
                      (mount (js ''A'') False True None)),
         newMessage (step (MessagesQuery 1 (Some []) False)
                      (step (ConversationQuery (Some example_conversation) False)
                        (mount (js ''A'') False True None))),
         newMessage example_ready]
        @ drafts [Change (js ''  ''), TimerFires] example_ready"
    by (simp add: example_ready_def)
  moreover have "newMessage (step (ConversationQuery (Some example_conversation) False)
                      (mount (js ''A'') False True None)) = []"
    "newMessage (step (MessagesQuery 1 (Some []) False)
                      (step (ConversationQuery (Some example_conversation) False)
                        (mount (js ''A'') False True None))) = []"
    "newMessage example_ready = []"
    by (simp_all add: example_ready_value step_def handle_def mount_def initial_def)
  ultimately have "drafts [ConversationQuery (Some example_conversation) False,
          MessagesQuery 1 (Some []) False, TimerFires, Change (js ''  ''), TimerFires]
          (mount (js ''A'') False True None)
      = [[], [], [], js ''  '', js ''  '']"
    using b by simp
  then have blank: "\<forall>d \<in> set (drafts [ConversationQuery (Some example_conversation) False,
          MessagesQuery 1 (Some []) False, TimerFires, Change (js ''  ''), TimerFires]
          (mount (js ''A'') False True None)). falsy (trim d)"
    by (simp add: string_defs)
  note needs = typing_call_needs_draft [of 2000 True TimerFires example_typing
      "[ConversationQuery (Some example_conversation) False, MessagesQuery 1 (Some []) False,
        TimerFires, Change (js ''  ''), TimerFires]" "js ''A''" False True None 2000 True]
  have "\<not> falsy (trim (newMessage (step TimerFires example_typing)))"
    using needs e by blast
  moreover have "(2000, OnIsTypingChange True)
        \<notin> set (trace (run [Change (js ''  ''), TimerFires] example_ready))"
    using needs blank by (simp add: example_ready_def)
  ultimately show ?thesis using e d b by simp
qed

section \<open>Marking the conversation as read\<close>

lemma step_read_calls:
  "settled s \<Longrightarrow>
   issued MarkAsRead (emitted e s) =
     (if conversation_dep (handle e s) \<noteq> conversation_dep s \<and> conversation (handle e s) \<noteq> None
      then 1 else 0)"
  using handle_has_no_read_call [of e s]
  by (auto simp: emitted_parts settled_def issued_def handle_trace split: event.splits option.splits)

lemma step_read_calls_other:
  "settled s \<Longrightarrow> no_conversation_result e \<Longrightarrow>
   issued MarkAsRead (trace (step e s)) = issued MarkAsRead (trace s)"
  by (simp add: step_trace issued_def step_read_calls [unfolded issued_def]
      conversation_dep_def handle_conversation)

lemma run_read_calls_other:
  "settled s \<Longrightarrow> \<forall>e \<in> set es. no_conversation_result e \<Longrightarrow>
   issued MarkAsRead (trace (run es s)) = issued MarkAsRead (trace s)"
  by (induction es arbitrary: s) (simp_all add: step_read_calls_other settled_step)

text \<open>
  C3. In every state the mounted component can reach: when the conversation was absent
  and a conversation arrives, \<open>markAsRead.mutate\<close> is called exactly once; the arrival
  of messages calls it zero times; and over any further events that do not bring a new
  result of the conversation query (message arrivals, keystrokes, timers, sends) the
  number of calls stays what it was.
\<close>

theorem mark_as_read_once_per_selection:
  "(conversation (run es (mount cid rt cb uid)) = None \<longrightarrow>
      issued MarkAsRead (emitted (ConversationQuery (Some c) loading) (run es (mount cid rt cb uid))) = 1)
   \<and> issued MarkAsRead (emitted (MessagesQuery r ms loading') (run es (mount cid rt cb uid))) = 0
   \<and> ((\<forall>e \<in> set later. no_conversation_result e) \<longrightarrow>
        issued MarkAsRead (trace (run later (run es (mount cid rt cb uid))))
          = issued MarkAsRead (trace (run es (mount cid rt cb uid))))"
  by (simp add: step_read_calls run_read_calls_other settled_reached handle_def
      conversation_dep_def)

theorem mark_as_read_once_per_selection_witness:
  "conversation (mount (js ''A'') False True None) = None
   \<and> issued MarkAsRead
         (emitted (ConversationQuery (Some example_conversation) False)
            (mount (js ''A'') False True None)) = 1
   \<and> issued MarkAsRead (trace example_ready) = 1
   \<and> issued MarkAsRead
         (trace (run [MessagesQuery 2 (Some example_messages) False, Change (js ''Hello''),
                      MessagesQuery 3 (Some example_messages) False] example_ready)) = 1"
proof -
  have n: "conversation (mount (js ''A'') False True None) = None"
    by (simp add: mount_def initial_def)
  have o: "\<forall>e \<in> set [MessagesQuery 2 (Some example_messages) False, Change (js ''Hello''),
                      MessagesQuery 3 (Some example_messages) False]. no_conversation_result e"
    by (simp add: no_conversation_result_def)
  have r: "issued MarkAsRead (trace example_ready) = 1"
    by (simp add: example_ready_value issued_def)
  from mark_as_read_once_per_selection
    [of "[]" "js ''A''" False True None example_conversation False 0 None False "[]"] n
  have first: "issued MarkAsRead
         (emitted (ConversationQuery (Some example_conversation) False)
            (mount (js ''A'') False True None)) = 1"
    by simp
  from mark_as_read_once_per_selection
    [of "[ConversationQuery (Some example_conversation) False, MessagesQuery 1 (Some []) False,
          TimerFires]" "js ''A''" False True None example_conversation False 0 None False
        "[MessagesQuery 2 (Some example_messages) False, Change (js ''Hello''),
          MessagesQuery 3 (Some example_messages) False]"] o
  have "issued MarkAsRead
         (trace (run [MessagesQuery 2 (Some example_messages) False, Change (js ''Hello''),
                      MessagesQuery 3 (Some example_messages) False] example_ready))
        = issued MarkAsRead (trace example_ready)"
    by (simp only: example_ready_reached)
  with n first r show ?thesis by simp
qed

section \<open>Changing the conversation\<close>

text \<open>
  C4, as the claim states it, fails: the draft typed in conversation \<open>A\<close>, the typing
  flag and the armed expiry timer are all still there after the id has changed to \<open>B\<close>.
\<close>

theorem draft_survives_conversation_switch:
  "newMessage (step (SetConversationId (js ''B'')) example_typing) = js ''Hello''
   \<and> isTyping (step (SetConversationId (js ''B'')) example_typing)
   \<and> armed (isTypingTimeoutID example_typing) (step (SetConversationId (js ''B'')) example_typing)
   \<and> conversationId example_typing = js ''A''
   \<and> conversationId (step (SetConversationId (js ''B'')) example_typing) = js ''B''"
  by (simp add: example_typing_value example_conversation_def chat_defs string_defs)

text \<open>
  C4, amended. In every state the mounted component can reach, a change of the
  conversation id changes that prop and nothing else: the draft, the typing flag, the
  timer id and the armed timers are kept. They have their initial values (empty draft,
  not typing, timer id 0, no expiry timer armed) when the component is mounted.
\<close>

theorem conversation_switch_keeps_local_state:
  "step (SetConversationId cid') (run es (mount cid rt cb uid))
     = (run es (mount cid rt cb uid))\<lparr>conversationId := cid'\<rparr>
   \<and> newMessage (mount cid rt cb uid) = []
   \<and> \<not> isTyping (mount cid rt cb uid)
   \<and> isTypingTimeoutID (mount cid rt cb uid) = 0
   \<and> filter (\<lambda>t. callback t = SetIsTypingFalse) (timers (mount cid rt cb uid)) = []"
proof -
  have "settled ((run es (mount cid rt cb uid))\<lparr>conversationId := cid'\<rparr>)"
    by (simp add: settled_conversationId settled_reached)
  then have "step (SetConversationId cid') (run es (mount cid rt cb uid))
     = (run es (mount cid rt cb uid))\<lparr>conversationId := cid'\<rparr>"
    by (simp add: step_def handle_def commit_settled)
  moreover have "filter (\<lambda>t. callback t = SetIsTypingFalse) (timers (mount cid rt cb uid)) = []"
    by (simp add: mount_def initial_def commit_def debounce_effect_def Let_def setTimeout_def)
  moreover have "newMessage (mount cid rt cb uid) = []" "\<not> isTyping (mount cid rt cb uid)"
    "isTypingTimeoutID (mount cid rt cb uid) = 0"
    by (simp_all add: mount_def initial_def)
  ultimately show ?thesis by simp
qed

theorem conversation_switch_keeps_local_state_witness:
  "step (SetConversationId (js ''B'')) example_typing = example_typing\<lparr>conversationId := js ''B''\<rparr>"
  using conversation_switch_keeps_local_state
    [of "js ''B''"
        "[ConversationQuery (Some example_conversation) False, MessagesQuery 1 (Some []) False,
          TimerFires, Change (js ''Hello'')]"
        "js ''A''" False True None]
  by (simp add: example_typing_def example_ready_def)

section \<open>A send that fails\<close>

text \<open>
  C2, as the claim states it, fails: after a rejected send the draft is empty, not the
  text it was when send was invoked.
\<close>

theorem draft_lost_on_send_failure:
  "newMessage example_typing = js ''Hello''
   \<and> form_shown example_typing \<and> \<not> send_disabled example_typing
   \<and> newMessage (step (SendFailed (Error ''rejected'')) (step Submit example_typing)) = []
   \<and> newMessage (step (SendFailed (Error ''rejected'')) (step Submit example_typing))
       \<noteq> newMessage example_typing"
  by (simp add: example_typing_value example_conversation_def chat_defs string_defs)

text \<open>
  C2, amended. For every send of a draft that is not blank: the send sets the pending
  flag and empties the draft at once; when the server rejects it, the failure clears
  the pending flag and records the error and changes nothing else, whatever happened in
  between. So the draft is not restored: it is still empty when no keystroke came in
  between, and the typing flag and the timers are what they were just before the failure.
\<close>

theorem send_failure_clears_pending_and_draft:
  assumes "form_shown s" and "\<not> send_disabled s"
    and "\<forall>e \<in> set between. no_settle e"
  shows "isPending (step Submit s)
     \<and> newMessage (step Submit s) = []
     \<and> step (SendFailed err) (run between (step Submit s))
         = (run between (step Submit s))\<lparr>isPending := False, onSuccess := None, send_error := Some err\<rparr>
     \<and> ((\<forall>e \<in> set between. no_keystroke e) \<longrightarrow>
          newMessage (step (SendFailed err) (run between (step Submit s))) = [])"
proof -
  let ?s1 = "step Submit s"
  let ?s' = "run between ?s1"
  have f1: "in_flight ?s1" using assms(1,2) by (rule submit_in_flight)
  have p1: "pending_with (isTypingTimeoutID s) ?s1" using assms(1,2) by (rule submit_pending)
  have p': "pending_with (isTypingTimeoutID s) ?s'" using p1 assms(3) by (rule run_pending)
  have st: "settled ?s'" by (simp add: settled_run settled_step)
  note failed = failure_state [OF p' st, of err]
  have before: "isPending ?s1" "newMessage ?s1 = []"
    using f1 by (simp_all add: in_flight_def)
  have after: "newMessage (step (SendFailed err) ?s') = []"
    if "\<forall>e \<in> set between. no_keystroke e"
  proof -
    have "in_flight ?s'" using f1 assms(3) that by (rule run_in_flight)
    then show ?thesis by (simp only: failed) (simp add: in_flight_def)
  qed
  from before failed after show ?thesis by blast
qed

theorem send_failure_clears_pending_and_draft_witness:
  "form_shown example_typing \<and> \<not> send_disabled example_typing
   \<and> isPending (step Submit example_typing)
   \<and> \<not> isPending (step (SendFailed (Error ''rejected'')) (run [TimerFires] (step Submit example_typing)))
   \<and> send_error (step (SendFailed (Error ''rejected'')) (run [TimerFires] (step Submit example_typing)))
       = Some (Error ''rejected'')
   \<and> newMessage (step (SendFailed (Error ''rejected'')) (run [TimerFires] (step Submit example_typing))) = []"
proof -
  have s: "form_shown example_typing" "\<not> send_disabled example_typing"
    by (simp_all add: example_typing_value form_shown_def send_disabled_def string_defs)
  have b: "\<forall>e \<in> set [TimerFires]. no_settle e" "\<forall>e \<in> set [TimerFires]. no_keystroke e"
    by (simp_all add: no_settle_def no_keystroke_def)
  note failure = send_failure_clears_pending_and_draft [OF s b(1), of "Error ''rejected''"]
  have "isPending (step Submit example_typing)"
    using failure by blast
  moreover have "step (SendFailed (Error ''rejected'')) (run [TimerFires] (step Submit example_typing))
      = (run [TimerFires] (step Submit example_typing))
          \<lparr>isPending := False, onSuccess := None, send_error := Some (Error ''rejected'')\<rparr>"
    using failure by blast
  moreover have "newMessage (step (SendFailed (Error ''rejected'')) (run [TimerFires] (step Submit example_typing))) = []"
    using failure b(2) by blast
  ultimately show ?thesis using s by simp
qed

section \<open>A send that is acknowledged\<close>

text \<open>
  C6, as the claim states it, fails when the user types again before the acknowledgment
  arrives: after the acknowledgment the draft is what was typed since, not the empty
  string, and the expiry timer armed by that keystroke is still armed.
\<close>

theorem draft_typed_before_acknowledgment_stays:
  "form_shown example_typing \<and> \<not> send_disabled example_typing
   \<and> newMessage (step SendSucceeded (step (Change (js ''x'')) (step Submit example_typing)))
       = js ''x''
   \<and> isTypingTimeoutID (step SendSucceeded (step (Change (js ''x'')) (step Submit example_typing)))
       = 4
   \<and> armed 4 (step SendSucceeded (step (Change (js ''x'')) (step Submit example_typing)))
   \<and> \<not> isTyping (step SendSucceeded (step (Change (js ''x'')) (step Submit example_typing)))
   \<and> \<not> isPending (step SendSucceeded (step (Change (js ''x'')) (step Submit example_typing)))"
  by (simp add: example_typing_value example_conversation_def chat_defs string_defs)

text \<open>
  C6, amended. In every state the mounted component can reach in which the form is shown
  and the send control is enabled (no send pending, draft not blank): the send sets the
  pending flag and empties the draft at once and issues exactly one \<open>sendMessage\<close> with
  the draft; when the server acknowledges it, the pending flag becomes false, the typing
  flag becomes false, the expiry timer that was current at the send is not armed, and
  \<open>scrollToBottom\<close> is called. If no keystroke came between the send and the
  acknowledgment, the draft is still the empty string and the current expiry timer is
  not armed.
\<close>

theorem send_then_acknowledge:
  assumes "s = run es (mount cid rt cb uid)"
    and "form_shown s" and "\<not> send_disabled s"
    and "\<forall>e \<in> set between. no_settle e"
    and "s1 = step Submit s" and "s' = run between s1" and "s2 = step SendSucceeded s'"
  shows "isPending s1 \<and> newMessage s1 = []
     \<and> emitted Submit s = [(now s, SendMessage (newMessage s))]
     \<and> \<not> isPending s2 \<and> \<not> isTyping s2 \<and> \<not> armed (isTypingTimeoutID s) s2
     \<and> emitted SendSucceeded s' = [(now s', ScrollToBottom (messagesEndRef s'))]
     \<and> ((\<forall>e \<in> set between. no_keystroke e) \<longrightarrow>
          newMessage s2 = [] \<and> \<not> armed (isTypingTimeoutID s2) s2)"
proof -
  have st: "settled s" by (simp add: assms(1) settled_reached)
  have f1: "in_flight s1" using assms(2,3) by (simp add: assms(5) submit_in_flight)
  have p1: "pending_with (isTypingTimeoutID s) s1"
    using assms(2,3) by (simp add: assms(5) submit_pending)
  have p': "pending_with (isTypingTimeoutID s) s'"
    using p1 assms(4) by (simp add: assms(6) run_pending)
  have st': "settled s'" by (simp add: assms(5,6) settled_run settled_step)
  have ok': "timers_ok s'"
    by (simp add: assms(1,5,6) run_timers_ok step_timers_ok reached_timers_ok)
  note after = success_state [OF p' ok', folded assms(7)]
  have before: "isPending s1" "newMessage s1 = []"
    using f1 by (simp_all add: in_flight_def)
  have sent: "emitted Submit s = [(now s, SendMessage (newMessage s))]"
    using st assms(2,3) by (rule submit_emitted)
  have scrolled: "emitted SendSucceeded s' = [(now s', ScrollToBottom (messagesEndRef s'))]"
    using st' p' by (rule success_emitted)
  have quiet: "newMessage s2 = [] \<and> \<not> armed (isTypingTimeoutID s2) s2"
    if "\<forall>e \<in> set between. no_keystroke e"
  proof -
    have "in_flight s'" using f1 assms(4) that by (simp add: assms(6) run_in_flight)
    then have "newMessage s' = []" "isTypingTimeoutID s' = isTypingTimeoutID s"
      using p' by (simp_all add: in_flight_def pending_with_def)
    then show ?thesis using after(3,4,5) by simp
  qed
  from before sent after(1,2,5) scrolled quiet show ?thesis by blast
qed

theorem send_then_acknowledge_witness:
  "form_shown example_typing \<and> \<not> send_disabled example_typing
   \<and> isPending (step Submit example_typing)
   \<and> emitted Submit example_typing = [(1000, SendMessage (js ''Hello''))]
   \<and> \<not> isPending (step SendSucceeded (run [TimerFires] (step Submit example_typing)))
   \<and> newMessage (step SendSucceeded (run [TimerFires] (step Submit example_typing))) = []
   \<and> \<not> isTyping (step SendSucceeded (run [TimerFires] (step Submit example_typing)))
   \<and> \<not> armed (isTypingTimeoutID (step SendSucceeded (run [TimerFires] (step Submit example_typing))))
         (step SendSucceeded (run [TimerFires] (step Submit example_typing)))"
proof -
  have s: "form_shown example_typing" "\<not> send_disabled example_typing"
    by (simp_all add: example_typing_value form_shown_def send_disabled_def string_defs)
  have b: "\<forall>e \<in> set [TimerFires]. no_settle e" "\<forall>e \<in> set [TimerFires]. no_keystroke e"
    by (simp_all add: no_settle_def no_keystroke_def)
  have v: "now example_typing = 1000" "newMessage example_typing = js ''Hello''"
    by (simp_all add: example_typing_value)
  from send_then_acknowledge [OF example_typing_reached s b(1) refl refl refl] v s b(2)
  show ?thesis by simp
qed

section \<open>From a keystroke to the typing signal\<close>

lemma commit_after_typing_change:
  assumes "messagesEndRef h = end_of_list_shown h"
    and "typing_deps h = Some (debouncedTyping h, conversation_dep h)"
    and "scroll_deps h = Some (messages_ref h, recipientTyping h)"
    and "read_deps h = Some (conversation_dep h)"
  shows "commit h = debounce_effect h"
proof -
  have "h\<lparr>messagesEndRef := end_of_list_shown h\<rparr> = h"
    using assms(1) by simp
  then have "commit h = read_effect (scroll_effect (typing_effect (debounce_effect h)))"
    by (simp add: commit_def)
  then show ?thesis
    using assms(2-4)
    by (simp add: typing_effect_settled scroll_effect_settled read_effect_settled)
qed

lemma commit_after_debounce_change:
  assumes "messagesEndRef h = end_of_list_shown h"
    and "debounce_seen h = Some (isTyping h)"
    and "scroll_deps h = Some (messages_ref h, recipientTyping h)"
    and "read_deps h = Some (conversation_dep h)"
  shows "commit h = typing_effect h"
proof -
  have "h\<lparr>messagesEndRef := end_of_list_shown h\<rparr> = h"
    using assms(1) by simp
  then have "commit h = read_effect (scroll_effect (typing_effect (debounce_effect h)))"
    by (simp add: commit_def)
  then show ?thesis
    using assms(2-4)
    by (simp add: debounce_effect_settled scroll_effect_settled read_effect_settled)
qed

lemma debounce_effect_arms:
  assumes "debounce_seen h \<noteq> Some (isTyping h)" and "debounce_handler h = Some d"
  shows "debounce_effect h =
     h\<lparr>next_timer_id := next_timer_id h + 1,
       timers := filter (\<lambda>t. timer_id t \<noteq> d) (timers h) @
                 [\<lparr>timer_id = next_timer_id h, due = now h + 1000,
                    callback = SetDebouncedValue (isTyping h)\<rparr>],
       debounce_handler := Some (next_timer_id h),
       debounce_seen := Some (isTyping h)\<rparr>"
  using assms by (simp add: debounce_effect_def setTimeout_def clearTimeout_def)

lemma typing_effect_runs:
  assumes "typing_deps h \<noteq> Some (debouncedTyping h, conversation_dep h)"
  shows "typing_effect h =
     (if conversation h \<noteq> None \<and> debouncedTyping h \<and> \<not> falsy (trim (newMessage h))
         \<and> has_onIsTypingChange h
      then h\<lparr>typing_deps := Some (debouncedTyping h, conversation_dep h),
             trace := trace h @ [(now h, OnIsTypingChange True)]\<rparr>
      else h\<lparr>typing_deps := Some (debouncedTyping h, conversation_dep h)\<rparr>)"
  using assms by (auto simp: typing_effect_def emit_def Let_def)


lemma end_of_list_shown_cong:
  "conversation h = conversation s \<Longrightarrow> isConversationLoading h = isConversationLoading s \<Longrightarrow>
   isMessagesLoading h = isMessagesLoading s \<Longrightarrow> messages h = messages s \<Longrightarrow>
   end_of_list_shown h = end_of_list_shown s"
  by (simp add: end_of_list_shown_def form_shown_def)

lemma fire_earliest:
  "earliest (timers s) = Some t \<Longrightarrow>
   fire s = run_callback (callback t)
     (s\<lparr>now := max (now s) (due t), timers := filter (\<lambda>u. timer_id u \<noteq> timer_id t) (timers s)\<rparr>)"
  by (simp add: fire_def)

lemma idle_keystroke_run:
  assumes st: "settled s" and ids: "ids_handed_out s" and shown: "form_shown s"
    and val: "val \<noteq> []" and cb: "has_onIsTypingChange s" and blank: "\<not> falsy (trim val)"
    and idle: "timers s = []" "\<not> isTyping s" "\<not> debouncedTyping s"
  defines "n \<equiv> next_timer_id s" and "t \<equiv> now s"
  defines "s1 \<equiv> step (Change val) s"
  defines "s2 \<equiv> step TimerFires s1"
  defines "s3 \<equiv> step TimerFires s2"
  defines "s4 \<equiv> step TimerFires s3"
  shows "s1 = s\<lparr>newMessage := val, isTyping := True, isTypingTimeoutID := n,
             debounce_handler := Some (n + 1), debounce_seen := Some True,
             next_timer_id := n + 2,
             timers := [\<lparr>timer_id = n, due = t + 5000, callback = SetIsTypingFalse\<rparr>,
                        \<lparr>timer_id = n + 1, due = t + 1000, callback = SetDebouncedValue True\<rparr>]\<rparr>"
    and "s2 = s1\<lparr>now := t + 1000, debouncedTyping := True,
             timers := [\<lparr>timer_id = n, due = t + 5000, callback = SetIsTypingFalse\<rparr>],
             typing_deps := Some (True, conversation_dep s),
             trace := trace s @ [(t + 1000, OnIsTypingChange True)]\<rparr>"
    and "s3 = s2\<lparr>now := t + 5000, isTyping := False,
             debounce_handler := Some (n + 2), debounce_seen := Some False,
             next_timer_id := n + 3,
             timers := [\<lparr>timer_id = n + 2, due = t + 6000, callback = SetDebouncedValue False\<rparr>]\<rparr>"
    and "s4 = s3\<lparr>now := t + 6000, debouncedTyping := False, timers := [],
             typing_deps := Some (False, conversation_dep s)\<rparr>"
proof -
  have conv: "conversation s \<noteq> None" using shown by (simp add: form_shown_def)
  have handler: "case debounce_handler s of None \<Rightarrow> True | Some d \<Rightarrow> d \<noteq> n"
    using ids by (auto simp: ids_handed_out_def n_def split: option.splits)
  note deps = st [unfolded settled_def]
  \<comment> \<open>the keystroke\<close>
  define h1 where "h1 = handle (Change val) s"
  have h1: "h1 = s\<lparr>newMessage := val, isTyping := True,
                  timers := [\<lparr>timer_id = n, due = t + 5000, callback = SetIsTypingFalse\<rparr>],
                  next_timer_id := n + 1, isTypingTimeoutID := n\<rparr>"
    using shown val idle(1)
    by (simp add: h1_def handle_def handleInputChange_def falsy_def setTimeout_def
        clearTimeout_def n_def t_def)
  have "commit h1 = debounce_effect h1"
    using deps
    by (intro commit_after_typing_change)
      (simp_all add: h1 conversation_dep_def end_of_list_shown_def form_shown_def)
  moreover have "debounce_effect h1 =
          s\<lparr>newMessage := val, isTyping := True, isTypingTimeoutID := n,
             debounce_handler := Some (n + 1), debounce_seen := Some True,
             next_timer_id := n + 2,
             timers := [\<lparr>timer_id = n, due = t + 5000, callback = SetIsTypingFalse\<rparr>,
                        \<lparr>timer_id = n + 1, due = t + 1000, callback = SetDebouncedValue True\<rparr>]\<rparr>"
    using deps idle(2) handler
    by (cases "debounce_handler s")
      (simp_all add: h1 debounce_effect_def setTimeout_def clearTimeout_def t_def)
  ultimately show s1: "s1 = s\<lparr>newMessage := val, isTyping := True, isTypingTimeoutID := n,
             debounce_handler := Some (n + 1), debounce_seen := Some True,
             next_timer_id := n + 2,
             timers := [\<lparr>timer_id = n, due = t + 5000, callback = SetIsTypingFalse\<rparr>,
                        \<lparr>timer_id = n + 1, due = t + 1000, callback = SetDebouncedValue True\<rparr>]\<rparr>"
    by (simp add: s1_def step_def h1_def)
  \<comment> \<open>one second later the debounced value settles\<close>
  define h2 where "h2 = handle TimerFires s1"
  have h2: "h2 = s1\<lparr>now := t + 1000, debouncedTyping := True,
                   timers := [\<lparr>timer_id = n, due = t + 5000, callback = SetIsTypingFalse\<rparr>]\<rparr>"
    by (simp add: h2_def handle_def fire_def run_callback_def s1 t_def)
  have "commit h2 = typing_effect h2"
    using deps
    by (intro commit_after_debounce_change)
      (simp_all add: h2 s1 conversation_dep_def end_of_list_shown_def form_shown_def)
  moreover have "typing_effect h2 = h2\<lparr>typing_deps := Some (True, conversation_dep s),
             trace := trace s @ [(t + 1000, OnIsTypingChange True)]\<rparr>"
    using deps idle(3) conv cb blank
    by (simp add: typing_effect_runs h2 s1 conversation_dep_def)
  ultimately show s2: "s2 = s1\<lparr>now := t + 1000, debouncedTyping := True,
             timers := [\<lparr>timer_id = n, due = t + 5000, callback = SetIsTypingFalse\<rparr>],
             typing_deps := Some (True, conversation_dep s),
             trace := trace s @ [(t + 1000, OnIsTypingChange True)]\<rparr>"
    by (simp add: s2_def step_def h2_def [symmetric] h2)
  \<comment> \<open>five seconds after the keystroke the typing flag expires\<close>
  define h3 where "h3 = handle TimerFires s2"
  have h3: "h3 = s2\<lparr>now := t + 5000, isTyping := False, timers := []\<rparr>"
    by (simp add: h3_def handle_def fire_def run_callback_def s2 s1)
  have "commit h3 = debounce_effect h3"
    using deps
    by (intro commit_after_typing_change)
      (simp_all add: h3 s2 s1 conversation_dep_def end_of_list_shown_def form_shown_def)
  moreover have "debounce_effect h3 =
          h3\<lparr>debounce_handler := Some (n + 2), debounce_seen := Some False,
             next_timer_id := n + 3,
             timers := [\<lparr>timer_id = n + 2, due = t + 6000, callback = SetDebouncedValue False\<rparr>]\<rparr>"
    by (simp add: h3 s2 s1 debounce_effect_def setTimeout_def clearTimeout_def)
  ultimately show s3: "s3 = s2\<lparr>now := t + 5000, isTyping := False,
             debounce_handler := Some (n + 2), debounce_seen := Some False,
             next_timer_id := n + 3,
             timers := [\<lparr>timer_id = n + 2, due = t + 6000, callback = SetDebouncedValue False\<rparr>]\<rparr>"
    by (simp add: s3_def step_def h3_def [symmetric] h3)
  \<comment> \<open>and one second after that the debounced value settles again\<close>
  define h4 where "h4 = handle TimerFires s3"
  have h4: "h4 = s3\<lparr>now := t + 6000, debouncedTyping := False, timers := []\<rparr>"
    by (simp add: h4_def handle_def fire_def run_callback_def s3 s2 s1)
  have "commit h4 = typing_effect h4"
    using deps
    by (intro commit_after_debounce_change)
      (simp_all add: h4 s3 s2 s1 conversation_dep_def end_of_list_shown_def form_shown_def)
  moreover have "typing_effect h4 = h4\<lparr>typing_deps := Some (False, conversation_dep s)\<rparr>"
    by (simp add: typing_effect_runs h4 s3 s2 s1 conversation_dep_def)
  ultimately show "s4 = s3\<lparr>now := t + 6000, debouncedTyping := False, timers := [],
             typing_deps := Some (False, conversation_dep s)\<rparr>"
    by (simp add: s4_def step_def h4_def [symmetric] h4)
qed

lemma debounce_effect_timers:
  "timers (debounce_effect h) =
     (if debounce_seen h = Some (isTyping h) then timers h
      else filter (\<lambda>t. Some (timer_id t) \<noteq> debounce_handler h) (timers h) @
           [\<lparr>timer_id = next_timer_id h, due = now h + 1000,
              callback = SetDebouncedValue (isTyping h)\<rparr>])"
  by (cases "debounce_handler h")
    (auto simp: debounce_effect_def setTimeout_def clearTimeout_def intro: filter_cong)

text \<open>What a commit does to the two flags and the timers that will clear them.\<close>

lemma commit_expires:
  assumes ok: "timers_ok h" and seen: "debounce_seen h = Some b"
    and typing: "isTyping h \<longrightarrow> (\<exists>x \<in> set (timers h). callback x = SetIsTypingFalse \<and> due x \<le> D)"
    and debounced: "debouncedTyping h \<longrightarrow>
          isTyping h
          \<or> (isTyping h = b \<and> (\<exists>x \<in> set (timers h). callback x = SetDebouncedValue False \<and> due x \<le> D + 1000))
          \<or> (isTyping h \<noteq> b \<and> now h \<le> D)"
  shows "expires_by D (commit h)"
proof (cases "isTyping h = b")
  case True
  then have "timers (commit h) = timers h"
    using seen by (simp add: commit_timers debounce_effect_timers)
  then show ?thesis
    using typing debounced True by (auto simp: expires_by_def)
next
  case False
  have t: "timers (commit h) =
      filter (\<lambda>t. Some (timer_id t) \<noteq> debounce_handler h) (timers h) @
           [\<lparr>timer_id = next_timer_id h, due = now h + 1000,
              callback = SetDebouncedValue (isTyping h)\<rparr>]"
    using seen False by (auto simp: commit_timers debounce_effect_timers)
  have keep: "x \<in> set (timers (commit h))"
    if "x \<in> set (timers h)" "callback x = SetIsTypingFalse" for x
    using that ok by (auto simp: t timers_ok_def)
  show ?thesis
    unfolding expires_by_def
  proof (intro conjI impI)
    assume "isTyping (commit h)"
    then obtain x where "x \<in> set (timers h)" "callback x = SetIsTypingFalse" "due x \<le> D"
      using typing by auto
    then show "\<exists>x \<in> set (timers (commit h)). callback x = SetIsTypingFalse \<and> due x \<le> D"
      using keep by blast
  next
    assume d: "debouncedTyping (commit h)"
    show "isTyping (commit h)
          \<or> (\<exists>x \<in> set (timers (commit h)). callback x = SetDebouncedValue False \<and> due x \<le> D + 1000)"
    proof (cases "isTyping h")
      case True
      then show ?thesis by simp
    next
      case typing_off: False
      then have "now h \<le> D" using d debounced False by auto
      then show ?thesis using typing_off by (auto simp: t)
    qed
  qed
qed


lemma fire_expires:
  assumes ok: "timers_ok s" and seen: "debounce_seen s = Some (isTyping s)"
    and ex: "expires_by D s"
  shows "isTyping (fire s) \<longrightarrow>
           (\<exists>x \<in> set (timers (fire s)). callback x = SetIsTypingFalse \<and> due x \<le> D)"
    and "debouncedTyping (fire s) \<longrightarrow>
          isTyping (fire s)
          \<or> (isTyping (fire s) = isTyping s
              \<and> (\<exists>x \<in> set (timers (fire s)). callback x = SetDebouncedValue False \<and> due x \<le> D + 1000))
          \<or> (isTyping (fire s) \<noteq> isTyping s \<and> now (fire s) \<le> D)"
proof -
  show "isTyping (fire s) \<longrightarrow>
           (\<exists>x \<in> set (timers (fire s)). callback x = SetIsTypingFalse \<and> due x \<le> D)"
  proof (cases "earliest (timers s)")
    case None
    then show ?thesis using ex by (simp add: fire_def expires_by_def)
  next
    case (Some t)
    from earliest_Some [OF Some] have t: "t \<in> set (timers s)" by simp
    have other: "x \<in> set (timers (fire s))" if "x \<in> set (timers s)" "callback x \<noteq> callback t" for x
    proof -
      have "x \<noteq> t" using that(2) by auto
      then have "timer_id x \<noteq> timer_id t"
        using ok t that(1) by (auto simp: timers_ok_def distinct_map inj_on_def)
      then show ?thesis using that(1) Some by (simp add: fire_def run_callback_def split: timer_callback.splits)
    qed
    show ?thesis
    proof (cases "callback t")
      case SetIsTypingFalse
      then show ?thesis using Some by (simp add: fire_def run_callback_def)
    next
      case (SetDebouncedValue v)
      then have "isTyping (fire s) = isTyping s"
        using Some by (simp add: fire_def run_callback_def)
      then show ?thesis
        using ex other SetDebouncedValue by (fastforce simp: expires_by_def)
    qed
  qed
next
  show "debouncedTyping (fire s) \<longrightarrow>
          isTyping (fire s)
          \<or> (isTyping (fire s) = isTyping s
              \<and> (\<exists>x \<in> set (timers (fire s)). callback x = SetDebouncedValue False \<and> due x \<le> D + 1000))
          \<or> (isTyping (fire s) \<noteq> isTyping s \<and> now (fire s) \<le> D)"
  proof (cases "earliest (timers s)")
    case None
    then show ?thesis using ex by (auto simp: fire_def expires_by_def)
  next
    case (Some t)
    from earliest_Some [OF Some] have t: "t \<in> set (timers s)"
      and least: "\<forall>y \<in> set (timers s). due t \<le> due y" by simp_all
    have now_t: "now (fire s) = due t"
      using ok t Some by (simp add: fire_def run_callback_def timers_ok_def max_def
          split: timer_callback.splits)
    have other: "x \<in> set (timers (fire s))" if "x \<in> set (timers s)" "callback x \<noteq> callback t" for x
    proof -
      have "x \<noteq> t" using that(2) by auto
      then have "timer_id x \<noteq> timer_id t"
        using ok t that(1) by (auto simp: timers_ok_def distinct_map inj_on_def)
      then show ?thesis using that(1) Some by (simp add: fire_def run_callback_def split: timer_callback.splits)
    qed
    show ?thesis
    proof (cases "callback t")
      case SetIsTypingFalse
      then have f: "\<not> isTyping (fire s)" "debouncedTyping (fire s) = debouncedTyping s"
        using Some by (simp_all add: fire_def run_callback_def)
      show ?thesis
      proof (cases "isTyping s")
        case True
        then obtain x where "x \<in> set (timers s)" "due x \<le> D"
          using ex by (auto simp: expires_by_def)
        then have "due t \<le> D" using least by force
        then show ?thesis using f True now_t by simp
      next
        case False
        then show ?thesis
          using f ex other SetIsTypingFalse by (fastforce simp: expires_by_def)
      qed
    next
      case (SetDebouncedValue v)
      then have "v = isTyping s"
        using ok t seen by (auto simp: timers_ok_def)
      then have "debouncedTyping (fire s) = isTyping s" "isTyping (fire s) = isTyping s"
        using Some SetDebouncedValue by (simp_all add: fire_def run_callback_def)
      then show ?thesis by simp
    qed
  qed
qed

lemma settle_success_expires:
  assumes ok: "timers_ok s" and ex: "expires_by D s"
  shows "isTyping (settle_success s) \<longrightarrow>
           (\<exists>x \<in> set (timers (settle_success s)). callback x = SetIsTypingFalse \<and> due x \<le> D)"
    and "debouncedTyping (settle_success s) \<longrightarrow>
          isTyping (settle_success s)
          \<or> (isTyping (settle_success s) = isTyping s
              \<and> (\<exists>x \<in> set (timers (settle_success s)).
                    callback x = SetDebouncedValue False \<and> due x \<le> D + 1000))
          \<or> (isTyping (settle_success s) \<noteq> isTyping s \<and> now (settle_success s) \<le> D)"
proof -
  show "isTyping (settle_success s) \<longrightarrow>
           (\<exists>x \<in> set (timers (settle_success s)). callback x = SetIsTypingFalse \<and> due x \<le> D)"
    using ex by (cases "onSuccess s") (simp_all add: settle_success_def on_success_def expires_by_def)
next
  show "debouncedTyping (settle_success s) \<longrightarrow>
          isTyping (settle_success s)
          \<or> (isTyping (settle_success s) = isTyping s
              \<and> (\<exists>x \<in> set (timers (settle_success s)).
                    callback x = SetDebouncedValue False \<and> due x \<le> D + 1000))
          \<or> (isTyping (settle_success s) \<noteq> isTyping s \<and> now (settle_success s) \<le> D)"
  proof (cases "onSuccess s")
    case None
    then show ?thesis using ex by (auto simp: settle_success_def expires_by_def)
  next
    case (Some c)
    have f: "\<not> isTyping (settle_success s)" "debouncedTyping (settle_success s) = debouncedTyping s"
      "timers (settle_success s) = filter (\<lambda>t. timer_id t \<noteq> c) (timers s)"
      using Some by (simp_all add: settle_success_def on_success_def)
    show ?thesis
    proof (cases "isTyping s")
      case True
      then obtain x where "x \<in> set (timers s)" "due x \<le> D"
        using ex by (auto simp: expires_by_def)
      then have "now s \<le> D" using ok by (force simp: timers_ok_def)
      then show ?thesis using f True by simp
    next
      case False
      show ?thesis
      proof
        assume "debouncedTyping (settle_success s)"
        then obtain y where y: "y \<in> set (timers s)" "callback y = SetDebouncedValue False"
          "due y \<le> D + 1000"
          using ex False f by (auto simp: expires_by_def)
        then have "timer_id y \<noteq> c" using ok Some by (auto simp: timers_ok_def)
        then show "isTyping (settle_success s)
          \<or> (isTyping (settle_success s) = isTyping s
              \<and> (\<exists>x \<in> set (timers (settle_success s)).
                    callback x = SetDebouncedValue False \<and> due x \<le> D + 1000))
          \<or> (isTyping (settle_success s) \<noteq> isTyping s \<and> now (settle_success s) \<le> D)"
          using y f False by auto
      qed
    qed
  qed
qed

lemma step_expires:
  assumes ok: "timers_ok s" and st: "settled s" and ex: "expires_by D s" and e: "no_keystroke e"
  shows "expires_by D (step e s)"
proof -
  have seen: "debounce_seen s = Some (isTyping s)" using st by (simp add: settled_def)
  have "expires_by D (commit (handle e s))"
  proof (rule commit_expires [where b = "isTyping s"])
    show "timers_ok (handle e s)" using ok by (rule handle_timers_ok)
    show "debounce_seen (handle e s) = Some (isTyping s)" using seen by simp
    show "isTyping (handle e s) \<longrightarrow>
        (\<exists>x \<in> set (timers (handle e s)). callback x = SetIsTypingFalse \<and> due x \<le> D)"
      using e ex fire_expires(1) [OF ok seen ex] settle_success_expires(1) [OF ok ex]
      by (cases e) (simp_all add: handle_def no_keystroke_def expires_by_def)
    show "debouncedTyping (handle e s) \<longrightarrow>
          isTyping (handle e s)
          \<or> (isTyping (handle e s) = isTyping s
              \<and> (\<exists>x \<in> set (timers (handle e s)). callback x = SetDebouncedValue False \<and> due x \<le> D + 1000))
          \<or> (isTyping (handle e s) \<noteq> isTyping s \<and> now (handle e s) \<le> D)"
      using e ex fire_expires(2) [OF ok seen ex] settle_success_expires(2) [OF ok ex]
      by (cases e) (simp_all add: handle_def no_keystroke_def expires_by_def)
  qed
  then show ?thesis by (simp add: step_def)
qed

lemma run_expires:
  "timers_ok s \<Longrightarrow> settled s \<Longrightarrow> expires_by D s \<Longrightarrow> \<forall>e \<in> set es. no_keystroke e \<Longrightarrow>
   expires_by D (run es s)"
  by (induction es arbitrary: s) (simp_all add: step_expires step_timers_ok settled_step)

lemma expired:
  assumes "timers_ok s" and "expires_by D s"
  shows "D < now s \<longrightarrow> \<not> isTyping s" and "D + 1000 < now s \<longrightarrow> \<not> debouncedTyping s"
  using assms by (force simp: timers_ok_def expires_by_def)+


lemma timers_ok_due: "timers_ok s \<Longrightarrow> x \<in> set (timers s) \<Longrightarrow> now s \<le> due x"
  by (simp add: timers_ok_def)

lemma timers_ok_debounce:
  "timers_ok s \<Longrightarrow> x \<in> set (timers s) \<Longrightarrow> callback x = SetDebouncedValue v \<Longrightarrow>
   debounce_handler s = Some (timer_id x) \<and> debounce_seen s = Some v
   \<and> onSuccess s \<noteq> Some (timer_id x) \<and> isTypingTimeoutID s \<noteq> timer_id x"
  by (simp add: timers_ok_def)

lemma timers_ok_typing:
  "timers_ok s \<Longrightarrow> x \<in> set (timers s) \<Longrightarrow> callback x = SetIsTypingFalse \<Longrightarrow>
   timer_id x = isTypingTimeoutID s"
  by (simp add: timers_ok_def)

lemma timers_ok_distinct:
  "timers_ok s \<Longrightarrow> x \<in> set (timers s) \<Longrightarrow> y \<in> set (timers s) \<Longrightarrow>
   timer_id x = timer_id y \<Longrightarrow> x = y"
  by (auto simp: timers_ok_def distinct_map inj_on_def)

lemma trim_Nil: "trim [] = []"
  by (simp add: trim_def)

lemma step_trace_mono: "x \<in> set (trace s) \<Longrightarrow> x \<in> set (trace (step e s))"
  by (simp add: step_trace)

lemma now_handle_mono: "now s \<le> now (handle e s)"
  by (cases e)
    (simp_all add: handle_def fire_def elapse_def run_callback_def
      split: option.splits timer_callback.splits)

lemma now_step_mono: "now s \<le> now (step e s)"
  by (simp add: step_def now_handle_mono)

lemma first_keystroke_broadcast_due:
  assumes ok: "timers_ok s" and st: "settled s" and shown: "form_shown s"
    and cb: "has_onIsTypingChange s" and val: "\<not> falsy (trim val)"
    and idle: "\<not> isTyping s" "\<not> debouncedTyping s"
  shows "broadcast_due (now s + 1000) (step (Change val) s)"
proof -
  let ?h = "handle (Change val) s"
  have nonempty: "val \<noteq> []" using val by (auto simp: falsy_def trim_Nil)
  have h: "?h = handleInputChange val s" using shown by (simp add: handle_def)
  have ht: "timers ?h = filter (\<lambda>t. timer_id t \<noteq> isTypingTimeoutID s) (timers s) @
              [\<lparr>timer_id = next_timer_id s, due = now s + 5000, callback = SetIsTypingFalse\<rparr>]"
    and hf: "isTyping ?h" "debounce_seen ?h = Some False" "now ?h = now s"
      "newMessage ?h = val"
    using nonempty st idle(1)
    by (simp_all add: h handleInputChange_def falsy_def setTimeout_def clearTimeout_def settled_def)
  have t: "timers (step (Change val) s) =
      filter (\<lambda>t. Some (timer_id t) \<noteq> debounce_handler ?h) (timers ?h) @
           [\<lparr>timer_id = next_timer_id ?h, due = now s + 1000, callback = SetDebouncedValue True\<rparr>]"
    using hf by (simp add: step_def commit_timers debounce_effect_timers)
  have old: "callback x \<noteq> SetIsTypingFalse"
    if "x \<in> set (timers s)" "timer_id x \<noteq> isTypingTimeoutID s" for x
    using that ok by (auto simp: timers_ok_def)
  have conv: "conversation s \<noteq> None" using shown by (simp add: form_shown_def)
  have s1: "isTyping (step (Change val) s)" "\<not> debouncedTyping (step (Change val) s)"
    "now (step (Change val) s) = now s" "newMessage (step (Change val) s) = val"
    "conversation (step (Change val) s) = conversation s"
    using hf idle(2) nonempty
    by (simp_all add: step_def h handleInputChange_def falsy_def setTimeout_def clearTimeout_def)
  have late: "now s + 1000 < due x"
    if "x \<in> set (timers (step (Change val) s))" "callback x = SetIsTypingFalse" for x
    using that old by (auto simp: t ht split: if_splits)
  have "\<exists>x \<in> set (timers (step (Change val) s)).
          callback x = SetDebouncedValue True \<and> due x = now s + 1000"
    by (simp add: t)
  then show ?thesis
    unfolding broadcast_due_def using conv cb val s1 late by auto
qed


lemma step_timers_unchanged:
  "settled s \<Longrightarrow> isTyping (handle e s) = isTyping s \<Longrightarrow>
   timers (step e s) = timers (handle e s)"
  by (simp add: step_def commit_timers debounce_effect_timers settled_def)

lemma step_broadcast_due:
  assumes ok: "timers_ok s" and st: "settled s" and due: "broadcast_due B s"
    and e: "typing_goes_on e"
  shows "broadcast_due B (step e s)"
proof -
  have conv: "conversation (step e s) \<noteq> None"
    using due e by (cases e) (simp_all add: step_def handle_def broadcast_due_def typing_goes_on_def)
  have cb: "has_onIsTypingChange (step e s)"
    using due by (simp add: broadcast_due_def)
  have draft: "\<not> falsy (trim (newMessage (step e s)))"
    using due e
    by (cases e)
      (simp_all add: step_def handle_def broadcast_due_def typing_goes_on_def
        handleInputChange_def Let_def split_def)
  show ?thesis
  proof (cases "(B, OnIsTypingChange True) \<in> set (trace s)")
    case True
    then have "(B, OnIsTypingChange True) \<in> set (trace (step e s))"
      by (rule step_trace_mono)
    then show ?thesis using conv cb draft by (simp add: broadcast_due_def)
  next
    case False
    with due obtain x where
      typing: "isTyping s" "\<not> debouncedTyping s" and B: "B \<le> now s + 1000"
      and x: "x \<in> set (timers s)" "callback x = SetDebouncedValue True" "due x = B"
      and late: "\<forall>y \<in> set (timers s). callback y = SetIsTypingFalse \<longrightarrow> B < due y"
      by (auto simp: broadcast_due_def)
    have later: "B \<le> now (step e s) + 1000"
      using B now_step_mono [of s e] by simp
    show ?thesis
    proof (cases e)
      case (Change val)
      show ?thesis
      proof (cases "form_shown s")
        case shown: True
        have nonempty: "val \<noteq> []"
          using e Change by (auto simp: typing_goes_on_def falsy_def trim_Nil)
        have h: "handle e s = handleInputChange val s"
          using Change shown by (simp add: handle_def)
        have ht: "timers (handle e s) =
              filter (\<lambda>t. timer_id t \<noteq> isTypingTimeoutID s) (timers s) @
              [\<lparr>timer_id = next_timer_id s, due = now s + 5000, callback = SetIsTypingFalse\<rparr>]"
          and hf: "isTyping (handle e s)" "debouncedTyping (handle e s) = debouncedTyping s"
          using nonempty
          by (simp_all add: h handleInputChange_def falsy_def setTimeout_def clearTimeout_def)
        have t: "timers (step e s) = timers (handle e s)"
          using st typing(1) hf(1) by (simp add: step_timers_unchanged)
        have "timer_id x \<noteq> isTypingTimeoutID s"
          using timers_ok_debounce [OF ok x(1,2)] by simp
        then have "x \<in> set (timers (step e s))"
          using x(1) by (simp add: t ht)
        moreover have "\<forall>y \<in> set (timers (step e s)). callback y = SetIsTypingFalse \<longrightarrow> B < due y"
          using late B by (auto simp: t ht)
        moreover have "isTyping (step e s)" "\<not> debouncedTyping (step e s)"
          using hf typing(2) by (simp_all add: step_def)
        ultimately show ?thesis
          using conv cb draft later x(2,3) by (auto simp: broadcast_due_def)
      next
        case False
        then have "step e s = s"
          using Change st by (simp add: step_def handle_def commit_settled)
        then show ?thesis using due by simp
      qed
    next
      case TimerFires
      from x(1) obtain t where t: "earliest (timers s) = Some t"
        by (cases "earliest (timers s)") (auto simp: earliest_None)
      from earliest_Some [OF t] have tin: "t \<in> set (timers s)" and "due t \<le> due x"
        using x(1) by auto
      then have "callback t \<noteq> SetIsTypingFalse"
        using late x(3) by force
      then obtain v where v: "callback t = SetDebouncedValue v"
        by (cases "callback t") auto
      then have "timer_id t = timer_id x"
        using timers_ok_debounce [OF ok tin v] timers_ok_debounce [OF ok x(1,2)] by simp
      then have "t = x"
        using timers_ok_distinct [OF ok tin x(1)] by simp
      have "now s \<le> B" using timers_ok_due [OF ok x(1)] x(3) by simp
      then have h: "now (handle e s) = B" "debouncedTyping (handle e s)"
        "typing_deps (handle e s) = typing_deps s" "conversation (handle e s) = conversation s"
        "newMessage (handle e s) = newMessage s"
        using TimerFires t \<open>t = x\<close> x(2,3)
        by (simp_all add: handle_def fire_def run_callback_def max_def)
      have "typing_deps s = Some (False, conversation_dep s)"
        using st typing(2) by (simp add: settled_def)
      then have "(B, OnIsTypingChange True) \<in> set (trace (step e s))"
        using h due by (simp add: step_def commit_trace broadcast_due_def conversation_dep_def)
      then show ?thesis using conv cb draft by (simp add: broadcast_due_def)
    next
      case (Elapse d)
      then have h: "isTyping (handle e s) = isTyping s" "timers (handle e s) = timers s"
        "debouncedTyping (handle e s) = debouncedTyping s"
        by (simp_all add: handle_def)
      then have "timers (step e s) = timers s" "isTyping (step e s)" "\<not> debouncedTyping (step e s)"
        using st typing by (simp_all add: step_timers_unchanged) (simp_all add: step_def)
      then show ?thesis
        using conv cb draft later x late by (auto simp: broadcast_due_def)
    next
      case (MessagesQuery r ms l)
      then have h: "isTyping (handle e s) = isTyping s" "timers (handle e s) = timers s"
        "debouncedTyping (handle e s) = debouncedTyping s"
        by (simp_all add: handle_def)
      then have "timers (step e s) = timers s" "isTyping (step e s)" "\<not> debouncedTyping (step e s)"
        using st typing by (simp_all add: step_timers_unchanged) (simp_all add: step_def)
      then show ?thesis
        using conv cb draft later x late by (auto simp: broadcast_due_def)
    next
      case (SetRecipientTyping b)
      then have h: "isTyping (handle e s) = isTyping s" "timers (handle e s) = timers s"
        "debouncedTyping (handle e s) = debouncedTyping s"
        by (simp_all add: handle_def)
      then have "timers (step e s) = timers s" "isTyping (step e s)" "\<not> debouncedTyping (step e s)"
        using st typing by (simp_all add: step_timers_unchanged) (simp_all add: step_def)
      then show ?thesis
        using conv cb draft later x late by (auto simp: broadcast_due_def)
    next
      case Submit
      then show ?thesis using e by (simp add: typing_goes_on_def)
    next
      case SendSucceeded
      then show ?thesis using e by (simp add: typing_goes_on_def)
    next
      case (SendFailed err)
      then show ?thesis using e by (simp add: typing_goes_on_def)
    next
      case (SetConversationId c)
      then show ?thesis using e by (simp add: typing_goes_on_def)
    next
      case (ConversationQuery c l)
      then show ?thesis using e by (simp add: typing_goes_on_def)
    qed
  qed
qed

lemma run_broadcast_due:
  "timers_ok s \<Longrightarrow> settled s \<Longrightarrow> broadcast_due B s \<Longrightarrow> \<forall>e \<in> set es. typing_goes_on e \<Longrightarrow>
   broadcast_due B (run es s)"
  by (induction es arbitrary: s) (simp_all add: step_broadcast_due step_timers_ok settled_step)

lemma broadcast_done:
  assumes "timers_ok s" and "broadcast_due B s" and "B < now s"
  shows "(B, OnIsTypingChange True) \<in> set (trace s)"
proof (rule ccontr)
  assume "(B, OnIsTypingChange True) \<notin> set (trace s)"
  then obtain x where "x \<in> set (timers s)" "due x = B"
    using assms(2) by (auto simp: broadcast_due_def)
  then show False using timers_ok_due [OF assms(1)] assms(3) by force
qed

lemma keystroke_arms_timer:
  assumes "settled s" and "ids_handed_out s" and "form_shown s" and "val \<noteq> []"
  shows "isTyping (step (Change val) s)"
    and "newMessage (step (Change val) s) = val"
    and "isTypingTimeoutID (step (Change val) s) = next_timer_id s"
    and "\<lparr>timer_id = next_timer_id s, due = now s + 5000, callback = SetIsTypingFalse\<rparr>
           \<in> set (timers (step (Change val) s))"
    and "\<not> armed (isTypingTimeoutID s) (step (Change val) s)"
proof -
  let ?h = "handle (Change val) s"
  have h: "?h = handleInputChange val s"
    using assms(3) by (simp add: handle_def)
  have ht: "timers ?h = filter (\<lambda>t. timer_id t \<noteq> isTypingTimeoutID s) (timers s) @
              [\<lparr>timer_id = next_timer_id s, due = now s + 5000, callback = SetIsTypingFalse\<rparr>]"
    and hn: "next_timer_id ?h = next_timer_id s + 1"
    and hd: "debounce_handler ?h = debounce_handler s"
    using assms(4)
    by (simp_all add: h handleInputChange_def falsy_def setTimeout_def clearTimeout_def)
  show "isTyping (step (Change val) s)" "newMessage (step (Change val) s) = val"
    "isTypingTimeoutID (step (Change val) s) = next_timer_id s"
    using assms(4)
    by (simp_all add: step_def h handleInputChange_def falsy_def setTimeout_def clearTimeout_def)
  have old: "isTypingTimeoutID s < next_timer_id s"
    and handler: "case debounce_handler s of None \<Rightarrow> True | Some d \<Rightarrow> d < next_timer_id s"
    using assms(2) by (simp_all add: ids_handed_out_def)
  show "\<lparr>timer_id = next_timer_id s, due = now s + 5000, callback = SetIsTypingFalse\<rparr>
           \<in> set (timers (step (Change val) s))"
    using handler
    by (auto simp: step_def commit_timers debounce_effect_def Let_def split_def ht hd
        setTimeout_def clearTimeout_def split: option.splits)
  have "\<not> armed (isTypingTimeoutID s) ?h"
    using old by (auto simp: armed_def ht)
  moreover have "isTypingTimeoutID s \<noteq> next_timer_id ?h"
    using old by (simp add: hn)
  ultimately show "\<not> armed (isTypingTimeoutID s) (step (Change val) s)"
    using commit_armed [of "isTypingTimeoutID s" ?h] by (auto simp: step_def)
qed

lemma reached_has_onIsTypingChange: "has_onIsTypingChange (run es (mount cid rt cb uid)) = cb"
proof -
  have "has_onIsTypingChange (run es s) = has_onIsTypingChange s" for s
    by (induction es arbitrary: s) simp_all
  then show ?thesis by (simp add: mount_def initial_def)
qed

lemma emitted_typing_true: "(t, OnIsTypingChange b) \<in> set (emitted e s) \<Longrightarrow> b"
  using handle_has_no_typing_call [of t b s e]
  by (auto simp: emitted_parts split: if_splits)

lemma run_typing_true:
  "\<forall>t. (t, OnIsTypingChange False) \<notin> set (trace s) \<Longrightarrow>
   (t, OnIsTypingChange False) \<notin> set (trace (run es s))"
proof (induction es arbitrary: s)
  case Nil
  then show ?case by simp
next
  case (Cons e es)
  have "\<forall>t. (t, OnIsTypingChange False) \<notin> set (trace (step e s))"
    using Cons.prems emitted_typing_true [of _ False e s] by (auto simp: step_trace)
  then show ?case using Cons.IH by simp
qed

lemma reached_typing_true: "(t, OnIsTypingChange False) \<notin> set (trace (run es (mount cid rt cb uid)))"
  by (rule run_typing_true) (simp add: mount_trace)

lemma emitted_from_traces:
  "trace (step e s) = trace s @ xs \<Longrightarrow> emitted e s = xs"
  by (simp add: emitted_def)

text \<open>
  C8, as the claim states it, fails: six seconds after the only keystroke the typing flag
  and its debounced value are false again and no timer is left, yet the only call of
  \<open>onIsTypingChange\<close> is the one with \<open>true\<close>; \<open>false\<close> has not been forwarded.
\<close>

theorem typing_false_is_never_forwarded:
  "now example_ready = 1000
   \<and> now (run [Change (js ''Hello''), TimerFires, TimerFires, TimerFires] example_ready) = 7000
   \<and> timers (run [Change (js ''Hello''), TimerFires, TimerFires, TimerFires] example_ready) = []
   \<and> \<not> isTyping (run [Change (js ''Hello''), TimerFires, TimerFires, TimerFires] example_ready)
   \<and> \<not> debouncedTyping (run [Change (js ''Hello''), TimerFires, TimerFires, TimerFires] example_ready)
   \<and> trace (run [Change (js ''Hello''), TimerFires, TimerFires, TimerFires] example_ready)
       = trace example_ready @ [(2000, OnIsTypingChange True)]
   \<and> issued (OnIsTypingChange False)
        (trace (run [Change (js ''Hello''), TimerFires, TimerFires, TimerFires] example_ready)) = 0"
proof -
  have "run [Change (js ''Hello''), TimerFires, TimerFires, TimerFires] example_ready
      = step TimerFires (step TimerFires (step TimerFires example_typing))"
    by (simp add: example_typing_def)
  then show ?thesis
    by (simp add: example_typing_value example_ready_value example_conversation_def
        chat_defs string_defs issued_def)
qed

text \<open>
  C8, amended. In every state the mounted component can reach with the form shown, a
  keystroke that leaves the draft non-empty sets the typing flag and arms a 5-second
  expiry timer in place of the previous one. If it is the first keystroke (the typing
  flag and its debounced value were false), the callback is given and the draft is not
  blank, then, while the user goes on typing, \<open>onIsTypingChange(true)\<close> has been called
  with the time of that keystroke plus one second as soon as the clock is past that
  time. If no further keystroke follows, the typing flag is false as soon as the clock
  is past five seconds after the keystroke, and its debounced value as soon as it is
  past six seconds. From an idle component the timers fire in that order, at one, five
  and six seconds, and only the first makes a call. However the component goes on,
  \<open>false\<close> is never passed to \<open>onIsTypingChange\<close>.
\<close>

theorem keystroke_starts_typing_signal:
  assumes "s = run es (mount cid rt cb uid)" and "form_shown s" and "val \<noteq> []"
  shows "isTyping (step (Change val) s)
     \<and> \<lparr>timer_id = isTypingTimeoutID (step (Change val) s), due = now s + 5000,
         callback = SetIsTypingFalse\<rparr> \<in> set (timers (step (Change val) s))
     \<and> \<not> armed (isTypingTimeoutID s) (step (Change val) s)
     \<and> (cb \<and> \<not> falsy (trim val) \<and> \<not> isTyping s \<and> \<not> debouncedTyping s
          \<and> (\<forall>e \<in> set typing. typing_goes_on e)
          \<and> now s + 1000 < now (run typing (step (Change val) s)) \<longrightarrow>
          (now s + 1000, OnIsTypingChange True) \<in> set (trace (run typing (step (Change val) s))))
     \<and> ((\<forall>e \<in> set quiet. no_keystroke e) \<longrightarrow>
          (now s + 5000 < now (run quiet (step (Change val) s)) \<longrightarrow>
             \<not> isTyping (run quiet (step (Change val) s)))
          \<and> (now s + 6000 < now (run quiet (step (Change val) s)) \<longrightarrow>
             \<not> debouncedTyping (run quiet (step (Change val) s))))
     \<and> (cb \<and> \<not> falsy (trim val) \<and> timers s = [] \<and> \<not> isTyping s \<and> \<not> debouncedTyping s \<longrightarrow>
          emitted TimerFires (step (Change val) s) = [(now s + 1000, OnIsTypingChange True)]
        \<and> emitted TimerFires (run [Change val, TimerFires] s) = []
        \<and> now (run [Change val, TimerFires, TimerFires] s) = now s + 5000
        \<and> \<not> isTyping (run [Change val, TimerFires, TimerFires] s)
        \<and> emitted TimerFires (run [Change val, TimerFires, TimerFires] s) = []
        \<and> now (run [Change val, TimerFires, TimerFires, TimerFires] s) = now s + 6000
        \<and> \<not> debouncedTyping (run [Change val, TimerFires, TimerFires, TimerFires] s)
        \<and> timers (run [Change val, TimerFires, TimerFires, TimerFires] s) = [])
     \<and> (\<forall>later t. (t, OnIsTypingChange False) \<notin> set (trace (run later s)))"
proof -
  have st: "settled s" and ids: "ids_handed_out s" and ok: "timers_ok s"
    by (simp_all add: assms(1) settled_reached reached_ids reached_timers_ok)
  have st1: "settled (step (Change val) s)" and ok1: "timers_ok (step (Change val) s)"
    using ok by (simp_all add: settled_step step_timers_ok)
  note keystroke = keystroke_arms_timer [OF st ids assms(2,3)]
  have a: "isTyping (step (Change val) s)
     \<and> \<lparr>timer_id = isTypingTimeoutID (step (Change val) s), due = now s + 5000,
         callback = SetIsTypingFalse\<rparr> \<in> set (timers (step (Change val) s))
     \<and> \<not> armed (isTypingTimeoutID s) (step (Change val) s)"
    using keystroke by simp
  have b: "(now s + 1000, OnIsTypingChange True) \<in> set (trace (run typing (step (Change val) s)))"
    if first: "cb" "\<not> falsy (trim val)" "\<not> isTyping s" "\<not> debouncedTyping s"
      and typing: "\<forall>e \<in> set typing. typing_goes_on e"
      and late: "now s + 1000 < now (run typing (step (Change val) s))"
  proof -
    have cb: "has_onIsTypingChange s"
      using first(1) by (simp add: assms(1) reached_has_onIsTypingChange)
    have "broadcast_due (now s + 1000) (step (Change val) s)"
      using ok st assms(2) cb first(2-4) by (rule first_keystroke_broadcast_due)
    with ok1 st1 have "broadcast_due (now s + 1000) (run typing (step (Change val) s))"
      using typing by (rule run_broadcast_due)
    with run_timers_ok [OF ok1] show ?thesis
      using late by (rule broadcast_done)
  qed
  have c: "(now s + 5000 < now (run quiet (step (Change val) s)) \<longrightarrow>
             \<not> isTyping (run quiet (step (Change val) s)))
          \<and> (now s + 6000 < now (run quiet (step (Change val) s)) \<longrightarrow>
             \<not> debouncedTyping (run quiet (step (Change val) s)))"
    if quiet: "\<forall>e \<in> set quiet. no_keystroke e"
  proof -
    have "expires_by (now s + 5000) (step (Change val) s)"
      unfolding expires_by_def using keystroke(1,3,4) by force
    with ok1 st1 have "expires_by (now s + 5000) (run quiet (step (Change val) s))"
      using quiet by (rule run_expires)
    from expired [OF run_timers_ok [OF ok1] this] show ?thesis by simp
  qed
  have e: "\<forall>later t. (t, OnIsTypingChange False) \<notin> set (trace (run later s))"
    by (simp add: assms(1) run_append [symmetric] reached_typing_true)
  have d: "emitted TimerFires (step (Change val) s) = [(now s + 1000, OnIsTypingChange True)]
        \<and> emitted TimerFires (run [Change val, TimerFires] s) = []
        \<and> now (run [Change val, TimerFires, TimerFires] s) = now s + 5000
        \<and> \<not> isTyping (run [Change val, TimerFires, TimerFires] s)
        \<and> emitted TimerFires (run [Change val, TimerFires, TimerFires] s) = []
        \<and> now (run [Change val, TimerFires, TimerFires, TimerFires] s) = now s + 6000
        \<and> \<not> debouncedTyping (run [Change val, TimerFires, TimerFires, TimerFires] s)
        \<and> timers (run [Change val, TimerFires, TimerFires, TimerFires] s) = []"
    if idle: "cb" "\<not> falsy (trim val)" "timers s = []" "\<not> isTyping s" "\<not> debouncedTyping s"
  proof -
    have cb: "has_onIsTypingChange s"
      using idle(1) by (simp add: assms(1) reached_has_onIsTypingChange)
    note states = idle_keystroke_run [OF st ids assms(2,3) cb idle(2-5)]
    have e1: "emitted TimerFires (step (Change val) s) = [(now s + 1000, OnIsTypingChange True)]"
      by (rule emitted_from_traces) (subst states(2), simp add: states(1))
    have e2: "emitted TimerFires (step TimerFires (step (Change val) s)) = []"
      by (rule emitted_from_traces) (simp add: states(3))
    have e3: "emitted TimerFires (step TimerFires (step TimerFires (step (Change val) s))) = []"
      by (rule emitted_from_traces) (simp add: states(4))
    have "now (step TimerFires (step TimerFires (step (Change val) s))) = now s + 5000"
      "\<not> isTyping (step TimerFires (step TimerFires (step (Change val) s)))"
      by (simp_all add: states(3))
    moreover have
      "now (step TimerFires (step TimerFires (step TimerFires (step (Change val) s)))) = now s + 6000"
      "\<not> debouncedTyping (step TimerFires (step TimerFires (step TimerFires (step (Change val) s))))"
      "timers (step TimerFires (step TimerFires (step TimerFires (step (Change val) s)))) = []"
      by (simp_all add: states(4))
    ultimately show ?thesis using e1 e2 e3 by simp
  qed
  from a b c d e show ?thesis by blast
qed

theorem keystroke_starts_typing_signal_witness:
  "form_shown example_ready \<and> timers example_ready = [] \<and> now example_ready = 1000
   \<and> isTyping example_typing
   \<and> emitted TimerFires example_typing = [(2000, OnIsTypingChange True)]
   \<and> now (run [Elapse 300, Change (js ''Hello!''), TimerFires, Elapse 1] example_typing) = 2001
   \<and> (2000, OnIsTypingChange True)
        \<in> set (trace (run [Elapse 300, Change (js ''Hello!''), TimerFires, Elapse 1] example_typing))
   \<and> now (run [TimerFires, TimerFires, TimerFires, Elapse 1] example_typing) = 7001
   \<and> \<not> isTyping (run [TimerFires, TimerFires, TimerFires, Elapse 1] example_typing)
   \<and> \<not> debouncedTyping (run [TimerFires, TimerFires, TimerFires, Elapse 1] example_typing)"
proof -
  have f: "form_shown example_ready"
    by (simp add: example_ready_value form_shown_def)
  have v: "js ''Hello'' \<noteq> []" "\<not> falsy (trim (js ''Hello''))"
    by (simp_all add: string_defs)
  have i: "timers example_ready = []" "\<not> isTyping example_ready"
    "\<not> debouncedTyping example_ready" "now example_ready = 1000"
    by (simp_all add: example_ready_value)
  have t: "\<forall>e \<in> set [Elapse 300, Change (js ''Hello!''), TimerFires, Elapse 1]. typing_goes_on e"
    by (simp add: typing_goes_on_def string_defs)
  have q: "\<forall>e \<in> set [TimerFires, TimerFires, TimerFires, Elapse 1]. no_keystroke e"
    by (simp add: no_keystroke_def)
  have n1: "now (run [Elapse 300, Change (js ''Hello!''), TimerFires, Elapse 1] example_typing) = 2001"
    by (simp add: example_typing_value example_conversation_def chat_defs string_defs)
  have n2: "now (run [TimerFires, TimerFires, TimerFires, Elapse 1] example_typing) = 7001"
    by (simp add: example_typing_value example_conversation_def chat_defs string_defs)
  note signal = keystroke_starts_typing_signal [OF example_ready_reached f v(1),
      of "[Elapse 300, Change (js ''Hello!''), TimerFires, Elapse 1]"
         "[TimerFires, TimerFires, TimerFires, Elapse 1]", folded example_typing_def]
  have "isTyping example_typing" using signal by blast
  moreover have "emitted TimerFires example_typing = [(2000, OnIsTypingChange True)]"
    using signal v(2) i by simp
  moreover have "(2000, OnIsTypingChange True)
        \<in> set (trace (run [Elapse 300, Change (js ''Hello!''), TimerFires, Elapse 1] example_typing))"
    using signal v(2) i t n1 by simp
  moreover have "\<not> isTyping (run [TimerFires, TimerFires, TimerFires, Elapse 1] example_typing)"
    "\<not> debouncedTyping (run [TimerFires, TimerFires, TimerFires, Elapse 1] example_typing)"
    using signal q n2 i(4) by simp_all
  ultimately show ?thesis using f i n1 n2 by simp
qed

end
